theory Spec2Isabelle
  imports Complex_Main "HOL-Library.Sublist"
begin

section \<open>Strings\<close>

text \<open>
  Python strings are modelled as \<^typ>\<open>string\<close>. The labels, keys and file names the program
  handles are ASCII; \<open>str.lower\<close> is modelled on the ASCII letters and leaves every other
  character as it is.
\<close>

definition ascii_uppercase :: string where
  "ascii_uppercase = ''ABCDEFGHIJKLMNOPQRSTUVWXYZ''"

definition ascii_lowercase :: string where
  "ascii_lowercase = ''abcdefghijklmnopqrstuvwxyz''"

definition lower_char :: "char \<Rightarrow> char" where
  "lower_char c =
     (case map_of (zip ascii_uppercase ascii_lowercase) c of None \<Rightarrow> c | Some d \<Rightarrow> d)"

definition lower :: "string \<Rightarrow> string" where
  "lower s = map lower_char s"

text \<open>
  \<open>contains xs ys\<close> is Python's \<open>xs in ys\<close> on strings: \<open>xs\<close> occurs in \<open>ys\<close> as a
  contiguous run, at the front or further in. The empty string occurs in every string.
\<close>

fun contains :: "string \<Rightarrow> string \<Rightarrow> bool" where
  "contains xs [] = (xs = [])"
| "contains xs (y # ys) = (prefix xs (y # ys) \<or> contains xs ys)"

section \<open>The clinical taxonomy (app.py, CLASS\_INFO and \_match\_class\_info)\<close>

record class_info =
  info_risk :: string
  info_description :: string
  info_recommendation :: string

text \<open>
  \<open>CLASS_INFO\<close> is a dict literal; a Python dict iterates in insertion order, so the table
  is an association list in the order of the source.
\<close>

definition CLASS_INFO :: "(string \<times> class_info) list" where
  "CLASS_INFO =
    [(''actinic keratosis'',
        \<lparr>info_risk = ''Pre-cancerous'',
         info_description = ''Rough, scaly patch caused by sun damage. Can progress to squamous cell carcinoma.'',
         info_recommendation = ''Consult a dermatologist for evaluation and possible treatment.''\<rparr>),
     (''basal cell carcinoma'',
        \<lparr>info_risk = ''Malignant'',
         info_description = ''Most common skin cancer. Slow-growing, rarely metastasizes, but requires treatment.'',
         info_recommendation = ''Seek immediate dermatological evaluation for biopsy and treatment options.''\<rparr>),
     (''dermatofibroma'',
        \<lparr>info_risk = ''Benign'',
         info_description = ''Harmless, firm nodule. No treatment necessary unless symptomatic.'',
         info_recommendation = ''Monitor for changes. No urgent action needed.''\<rparr>),
     (''melanoma'',
        \<lparr>info_risk = ''Malignant'',
         info_description = ''Most dangerous skin cancer. Early detection is critical for survival.'',
         info_recommendation = ''Urgent: Consult a dermatologist or oncologist immediately.''\<rparr>),
     (''nevus'',
        \<lparr>info_risk = ''Benign'',
         info_description = ''Common mole. Usually harmless but should be monitored for changes.'',
         info_recommendation = ''Use the ABCDE rule to monitor. Consult a doctor if changes occur.''\<rparr>),
     (''pigmented benign keratosis'',
        \<lparr>info_risk = ''Benign'',
         info_description = ''Non-cancerous growth (e.g., seborrheic keratosis). Cosmetic concern only.'',
         info_recommendation = ''No medical treatment needed. Can be removed for cosmetic reasons.''\<rparr>),
     (''squamous cell carcinoma'',
        \<lparr>info_risk = ''Malignant'',
         info_description = ''Second most common skin cancer. Can metastasize if untreated.'',
         info_recommendation = ''Seek prompt dermatological evaluation for biopsy and treatment.''\<rparr>),
     (''vascular lesion'',
        \<lparr>info_risk = ''Benign'',
         info_description = ''Blood vessel abnormality (e.g., hemangioma). Usually harmless.'',
         info_recommendation = ''Monitor for changes. Treatment usually not required.''\<rparr>)]"

text \<open>
  The loop of \<open>_match_class_info\<close> over \<open>CLASS_INFO.items()\<close>: it returns at the first
  entry whose key occurs in the lower-cased label or in whose key the lower-cased label
  occurs, and \<open>None\<close> when the table is exhausted.
\<close>

fun match_loop :: "string \<Rightarrow> (string \<times> class_info) list \<Rightarrow> class_info option" where
  "match_loop label_lower [] = None"
| "match_loop label_lower ((key, info) # rest) =
     (if contains key label_lower \<or> contains label_lower key then Some info
      else match_loop label_lower rest)"

definition match_class_info :: "string \<Rightarrow> class_info option" where
  "match_class_info label = (let label_lower = lower label in match_loop label_lower CLASS_INFO)"

section \<open>Annotated predictions (app.py, the loop body of run\_prediction)\<close>

text \<open>
  Probabilities and confidences are Python floats; they are modelled as exact reals.
  \<open>round(x, 2)\<close> rounds to the nearest multiple of one hundredth, a tie going to the
  even one.
\<close>

definition round_half_even :: "real \<Rightarrow> int" where
  "round_half_even y =
     (let f = \<lfloor>y\<rfloor>; d = y - of_int f
      in if d < 1 / 2 then f else if 1 / 2 < d then f + 1 else if even f then f else f + 1)"

definition py_round2 :: "real \<Rightarrow> real" where
  "py_round2 x = of_int (round_half_even (x * 100)) / 100"

record prediction =
  label :: string
  confidence :: real
  risk :: string
  description :: string
  recommendation :: string

text \<open>
  One pass of the loop of \<open>run_prediction\<close>, for a label and its probability: the
  dictionary appended to \<open>results\<close>.
\<close>

definition result_entry :: "string \<Rightarrow> real \<Rightarrow> prediction" where
  "result_entry lbl prob =
     (let conf = py_round2 (prob * 100); info = match_class_info lbl
      in \<lparr>label = lbl,
          confidence = conf,
          risk = (case info of Some i \<Rightarrow> info_risk i | None \<Rightarrow> ''Unknown''),
          description = (case info of Some i \<Rightarrow> info_description i | None \<Rightarrow> ''''),
          recommendation = (case info of Some i \<Rightarrow> info_recommendation i | None \<Rightarrow> '''')\<rparr>)"

section \<open>Responses\<close>

text \<open>
  A response is the pair that a view function returns: the JSON body and the status
  code (200 when the source gives none).
\<close>

datatype body = ErrorBody string | SuccessBody "prediction list"

record response =
  status :: nat
  body :: body

section \<open>The rate limiter (app.py, rate\_limit)\<close>

definition RATE_LIMIT_MAX :: nat where
  "RATE_LIMIT_MAX = 20"

definition RATE_LIMIT_WINDOW :: real where
  "RATE_LIMIT_WINDOW = 60"

text \<open>
  \<open>_rate_limit_store\<close> is a \<open>defaultdict(list)\<close> from client key to the list of the
  times of its admitted requests, empty at process start. \<open>time.time()\<close> is a float; times
  are modelled as reals. Reading a key that is absent gives the empty list.
\<close>

type_synonym rate_store = "string \<rightharpoonup> real list"

definition window_of :: "rate_store \<Rightarrow> string \<Rightarrow> real list" where
  "window_of store ip = (case store ip of None \<Rightarrow> [] | Some ts \<Rightarrow> ts)"

text \<open>\<open>request.remote_addr or "unknown"\<close>: \<open>None\<close> and the empty string are falsy.\<close>

definition client_key :: "string option \<Rightarrow> string" where
  "client_key remote_addr =
     (case remote_addr of None \<Rightarrow> ''unknown'' | Some a \<Rightarrow> if a = [] then ''unknown'' else a)"

text \<open>
  The admission check of \<open>decorated\<close> on the store: prune the key's list, compare its
  length with the maximum, append \<open>now\<close> when the request passes. The result is the new
  store and whether the request is admitted.
\<close>

definition admit :: "string \<Rightarrow> real \<Rightarrow> rate_store \<Rightarrow> rate_store \<times> bool" where
  "admit ip now store =
     (let store1 = store(ip \<mapsto> [t \<leftarrow> window_of store ip. now - t < RATE_LIMIT_WINDOW])
      in if length (window_of store1 ip) \<ge> RATE_LIMIT_MAX then (store1, False)
         else (store1(ip \<mapsto> window_of store1 ip @ [now]), True))"

definition too_many_requests :: response where
  "too_many_requests =
     \<lparr>status = 429,
      body = ErrorBody ''Too many requests. Please wait a minute and try again.''\<rparr>"

text \<open>
  The decorator: \<open>f\<close> is the wrapped view function, a transition on the rest of the
  program's state that yields a response. It runs only when the request is admitted.
\<close>

definition rate_limit ::
  "('s \<Rightarrow> 's \<times> response) \<Rightarrow> string option \<Rightarrow> real \<Rightarrow> rate_store \<times> 's
     \<Rightarrow> (rate_store \<times> 's) \<times> response" where
  "rate_limit f remote_addr now st =
     (let ip = client_key remote_addr;
          (store1, admitted) = admit ip now (fst st)
      in if \<not> admitted then ((store1, snd st), too_many_requests)
         else (let (s1, r) = f (snd st) in ((store1, s1), r)))"

text \<open>A run of admission checks for one key, one after the other, with their outcomes.\<close>

fun admit_seq :: "string \<Rightarrow> real list \<Rightarrow> rate_store \<Rightarrow> rate_store \<times> bool list" where
  "admit_seq ip [] store = (store, [])"
| "admit_seq ip (t # ts) store =
     (let (store1, ok) = admit ip t store; (store2, oks) = admit_seq ip ts store1
      in (store2, ok # oks))"

text \<open>A run of admission checks for any keys: the store they leave.\<close>

fun run_checks :: "(string \<times> real) list \<Rightarrow> rate_store \<Rightarrow> rate_store" where
  "run_checks [] store = store"
| "run_checks ((ip, now) # cs) store = run_checks cs (fst (admit ip now store))"

text \<open>The times lie within one window: no two of them are a window or more apart.\<close>

definition within_window :: "real list \<Rightarrow> bool" where
  "within_window ts = (\<forall>t \<in> set ts. \<forall>t' \<in> set ts. t - t' < RATE_LIMIT_WINDOW)"

section \<open>The external collaborators\<close>

text \<open>
  Python exceptions are values. \<open>except Exception\<close> in the view catches every one of them.
\<close>

datatype py_exn = IndexError | RuntimeError | OSError | UnidentifiedImageError

type_synonym path = string
type_synonym bytes = string
type_synonym image = "nat list"

text \<open>The upload directory: which paths hold a file, and the file's bytes.\<close>

type_synonym file_system = "path \<rightharpoonup> bytes"

text \<open>
  An uploaded part of the multipart body (werkzeug's \<open>FileStorage\<close>): the client's file
  name, the declared content type (\<open>None\<close> when the part has no such header) and the bytes.
\<close>

record file_storage =
  filename :: string
  content_type :: "string option"
  stream :: bytes

record request =
  remote_addr :: "string option"
  files :: "string \<rightharpoonup> file_storage"

text \<open>
  \<open>file.save(filepath)\<close> either writes the whole upload, or raises having written nothing
  (\<open>SaveFailed None\<close>) or only the first \<open>n\<close> bytes (\<open>SaveFailed (Some n)\<close>).
\<close>

datatype save_outcome = Saved | SaveFailed "nat option"

text \<open>
  What the program calls and does not define: \<open>pathlib\<close>'s \<open>Path(name).suffix\<close>, the text
  \<open>', '.join(ALLOWED_EXTENSIONS)\<close> (a set iterates in an order of its own), the upload
  directory, \<open>uuid.uuid4().hex\<close>, the outcome of \<open>file.save\<close>, Pillow's \<open>Image.open\<close> with
  \<open>verify\<close> and with \<open>convert("RGB")\<close>, the processor and the model with the softmax of the
  logits, \<open>torch.topk\<close> (the values zipped with the indices) and the model's \<open>id2label\<close>,
  which names every index of the logits.
\<close>

record env =
  path_suffix :: "string \<Rightarrow> string"
  extension_listing :: string
  upload_dir :: string
  uuid4_hex :: string
  save_result :: save_outcome
  image_verify :: "bytes \<Rightarrow> bool"
  image_open :: "bytes \<Rightarrow> py_exn + image"
  classify :: "image \<Rightarrow> py_exn + real list"
  topk :: "real list \<Rightarrow> int \<Rightarrow> py_exn + (real \<times> nat) list"
  id2label :: "nat \<Rightarrow> string"

section \<open>Prediction (app.py, run\_prediction)\<close>

definition run_prediction :: "env \<Rightarrow> image \<Rightarrow> int \<Rightarrow> py_exn + prediction list" where
  "run_prediction env img top_k =
     (case classify env img of
        Inl e \<Rightarrow> Inl e
      | Inr probs \<Rightarrow>
          (case topk env probs (min top_k (int (length probs))) of
             Inl e \<Rightarrow> Inl e
           | Inr selected \<Rightarrow>
               Inr (map (\<lambda>(prob, idx). result_entry (id2label env idx) prob) selected)))"

section \<open>The view (app.py, api\_predict)\<close>

definition ALLOWED_EXTENSIONS :: "string list" where
  "ALLOWED_EXTENSIONS = [''.jpg'', ''.jpeg'', ''.png'', ''.bmp'', ''.tiff'', ''.webp'']"

definition ALLOWED_MIMETYPES :: "string list" where
  "ALLOWED_MIMETYPES = [''image/jpeg'', ''image/png'', ''image/bmp'', ''image/tiff'', ''image/webp'']"

definition error_response :: "nat \<Rightarrow> string \<Rightarrow> response" where
  "error_response code msg = \<lparr>status = code, body = ErrorBody msg\<rparr>"

definition unsupported_format :: "env \<Rightarrow> string \<Rightarrow> string" where
  "unsupported_format env ext =
     ''Unsupported format '' @ [CHR 0x27] @ ext @ [CHR 0x27] @ ''. Use: '' @ extension_listing env"

text \<open>\<open>UPLOAD_DIR / f"{uuid.uuid4().hex}{ext}"\<close>.\<close>

definition upload_path :: "env \<Rightarrow> string \<Rightarrow> path" where
  "upload_path env ext = upload_dir env @ ''/'' @ uuid4_hex env @ ext"

definition file_save :: "env \<Rightarrow> file_storage \<Rightarrow> path \<Rightarrow> file_system \<Rightarrow> file_system \<times> py_exn option" where
  "file_save env file filepath fs =
     (case save_result env of
        Saved \<Rightarrow> (fs(filepath \<mapsto> stream file), None)
      | SaveFailed None \<Rightarrow> (fs, Some OSError)
      | SaveFailed (Some n) \<Rightarrow> (fs(filepath \<mapsto> take n (stream file)), Some OSError))"

text \<open>\<open>_validate_image_content\<close>: any exception of \<open>Image.open\<close> or \<open>verify\<close> gives \<open>False\<close>.\<close>

definition validate_image_content :: "env \<Rightarrow> file_system \<Rightarrow> path \<Rightarrow> bool" where
  "validate_image_content env fs filepath =
     (case fs filepath of None \<Rightarrow> False | Some b \<Rightarrow> image_verify env b)"

text \<open>
  The body of the \<open>try\<close> statement. It ends in an exception (\<open>Inl\<close>), in the \<open>return\<close> of
  the content check (\<open>Inr (Inl response)\<close>) or normally with the results.
\<close>

definition try_body ::
  "env \<Rightarrow> file_storage \<Rightarrow> path \<Rightarrow> file_system
     \<Rightarrow> file_system \<times> (py_exn + (response + prediction list))" where
  "try_body env file filepath fs =
     (case file_save env file filepath fs of
        (fs1, Some e) \<Rightarrow> (fs1, Inl e)
      | (fs1, None) \<Rightarrow>
          if \<not> validate_image_content env fs1 filepath
          then (fs1, Inr (Inl (error_response 400 ''The uploaded file is not a valid image.'')))
          else (case fs1 filepath of
                  None \<Rightarrow> (fs1, Inl OSError)
                | Some b \<Rightarrow>
                    (case image_open env b of
                       Inl e \<Rightarrow> (fs1, Inl e)
                     | Inr img \<Rightarrow>
                         (case run_prediction env img 5 of
                            Inl e \<Rightarrow> (fs1, Inl e)
                          | Inr results \<Rightarrow> (fs1, Inr (Inr results))))))"

text \<open>
  The \<open>finally\<close> clause: \<open>if filepath.exists(): filepath.unlink()\<close>. Removing an existing
  file is taken to succeed.
\<close>

definition finally_cleanup :: "path \<Rightarrow> file_system \<Rightarrow> file_system" where
  "finally_cleanup filepath fs = (if fs filepath \<noteq> None then fs(filepath := None) else fs)"

text \<open>
  The view on a parsed request whose body is within \<open>MAX_CONTENT_LENGTH\<close>. The \<open>finally\<close>
  clause runs on every way out of the \<open>try\<close> statement, before the response is returned.
\<close>

definition api_predict :: "env \<Rightarrow> request \<Rightarrow> file_system \<Rightarrow> file_system \<times> response" where
  "api_predict env req fs =
     (case files req ''image'' of
        None \<Rightarrow> (fs, error_response 400 ''No image file provided.'')
      | Some file \<Rightarrow>
          if filename file = '''' then (fs, error_response 400 ''No file selected.'')
          else
            (let ext = lower (path_suffix env (filename file)) in
             if ext \<notin> set ALLOWED_EXTENSIONS
             then (fs, error_response 400 (unsupported_format env ext))
             else if (case content_type file of
                        None \<Rightarrow> False
                      | Some ct \<Rightarrow> ct \<noteq> '''' \<and> ct \<notin> set ALLOWED_MIMETYPES)
             then (fs, error_response 400 ''Invalid file type.'')
             else
               (let filepath = upload_path env ext;
                    (fs1, outcome) = try_body env file filepath fs;
                    fs2 = finally_cleanup filepath fs1
                in case outcome of
                     Inl e \<Rightarrow>
                       (fs2, error_response 500
                          ''An error occurred while processing the image. Please try again.'')
                   | Inr (Inl r) \<Rightarrow> (fs2, r)
                   | Inr (Inr results) \<Rightarrow> (fs2, \<lparr>status = 200, body = SuccessBody results\<rparr>))))"

text \<open>
  The route as registered, \<open>@rate_limit\<close> around \<open>api_predict\<close>: the state is the rate
  limiter's store and the upload directory.
\<close>

definition predict_endpoint ::
  "env \<Rightarrow> request \<Rightarrow> real \<Rightarrow> rate_store \<times> file_system
     \<Rightarrow> (rate_store \<times> file_system) \<times> response" where
  "predict_endpoint env req now st = rate_limit (api_predict env req) (remote_addr req) now st"

section \<open>The command-line script (skin\_cancer\_detector.py)\<close>

record cli_result =
  cli_label :: string
  cli_confidence :: real

definition predict :: "env \<Rightarrow> image \<Rightarrow> int \<Rightarrow> py_exn + cli_result list" where
  "predict env img top_k =
     (case classify env img of
        Inl e \<Rightarrow> Inl e
      | Inr probabilities \<Rightarrow>
          (case topk env probabilities (min top_k (int (length probabilities))) of
             Inl e \<Rightarrow> Inl e
           | Inr selected \<Rightarrow>
               Inr (map (\<lambda>(prob, idx). \<lparr>cli_label = id2label env idx, cli_confidence = prob\<rparr>)
                      selected)))"

definition URGENT_KEYWORDS :: "string list" where
  "URGENT_KEYWORDS = [''melanoma'', ''carcinoma'', ''actinic'']"

text \<open>
  \<open>display_results\<close> prints; what is kept of it is \<open>is_concerning\<close>, which chooses the
  closing notice. \<open>results[0]\<close> raises \<open>IndexError\<close> on an empty list.
\<close>

definition display_results :: "cli_result list \<Rightarrow> py_exn + bool" where
  "display_results results =
     (case results of
        [] \<Rightarrow> Inl IndexError
      | r # _ \<Rightarrow>
          (let top_label = lower (cli_label r)
           in Inr (list_ex (\<lambda>keyword. contains keyword top_label) URGENT_KEYWORDS)))"

section \<open>Reference models used in the examples\<close>

text \<open>
  \<open>torch.topk\<close> on a vector: the \<open>k\<close> largest values in descending order with their
  indices; it raises when \<open>k\<close> is negative or exceeds the length. Here equal values keep
  the order of their indices.
\<close>

definition torch_topk :: "real list \<Rightarrow> int \<Rightarrow> py_exn + (real \<times> nat) list" where
  "torch_topk probs k =
     (if k < 0 \<or> int (length probs) < k then Inl RuntimeError
      else Inr (take (nat k) (sort_key (\<lambda>(p, i). - p) (zip probs [0..<length probs]))))"

text \<open>
  What the program relies on of \<open>torch.topk\<close>: for \<open>0 \<le> k \<le> length probs\<close> it returns \<open>k\<close>
  pairs of a value and its index, in descending order of value, the indices distinct, and
  no value left out exceeds one that is selected; otherwise it raises.
\<close>

definition topk_contract :: "(real list \<Rightarrow> int \<Rightarrow> py_exn + (real \<times> nat) list) \<Rightarrow> bool" where
  "topk_contract tk =
     (\<forall>probs k.
        if 0 \<le> k \<and> k \<le> int (length probs)
        then (\<exists>sel. tk probs k = Inr sel
                \<and> length sel = nat k
                \<and> sorted_wrt (\<lambda>a b. fst a \<ge> fst b) sel
                \<and> distinct (map snd sel)
                \<and> (\<forall>(p, i) \<in> set sel. i < length probs \<and> probs ! i = p)
                \<and> (\<forall>j < length probs. j \<notin> snd ` set sel \<longrightarrow> (\<forall>(p, i) \<in> set sel. probs ! j \<le> p)))
        else tk probs k = Inl RuntimeError)"

text \<open>
  \<open>Path(name).suffix\<close> for a plain file name: the text from the last dot on, unless the
  name has no dot, starts with its only dot or ends with the dot.
\<close>

definition plain_suffix :: "string \<Rightarrow> string" where
  "plain_suffix name =
     (let i = length name - Suc (length (takeWhile (\<lambda>c. c \<noteq> CHR ''.'') (rev name)))
      in if CHR ''.'' \<in> set name \<and> 0 < i \<and> i < length name - 1 then drop i name else '''')"

section \<open>An example request and example collaborators\<close>

definition example_labels :: "string list" where
  "example_labels =
     [''basal cell carcinoma'', ''dermatofibroma'', ''melanoma'', ''nevus'', ''vascular lesion'']"

definition example_probs :: "real list" where
  "example_probs = [3 / 100, 10 / 100, 62 / 100, 20 / 100, 5 / 100]"

definition example_env :: env where
  "example_env =
     \<lparr>path_suffix = plain_suffix,
      extension_listing = ''.jpg, .jpeg, .png, .bmp, .tiff, .webp'',
      upload_dir = ''uploads'',
      uuid4_hex = ''9f1c2b7e5a4d4c0e8b3a6d2f7c1e0a55'',
      save_result = Saved,
      image_verify = (\<lambda>b. prefix ''IMG'' b),
      image_open = (\<lambda>b. Inr [length b]),
      classify = (\<lambda>img. Inr example_probs),
      topk = torch_topk,
      id2label = (\<lambda>i. example_labels ! i)\<rparr>"

definition example_file :: file_storage where
  "example_file =
     \<lparr>filename = ''lesion.JPG'', content_type = Some ''image/jpeg'', stream = ''IMG-bytes''\<rparr>"

definition example_request :: request where
  "example_request =
     \<lparr>remote_addr = Some ''203.0.113.7'', files = [''image'' \<mapsto> example_file]\<rparr>"

section \<open>Concurrent calls of the rate limiter\<close>

text \<open>
  Nothing in the source guards \<open>_rate_limit_store\<close>: \<open>decorated\<close> takes no lock. Each
  request runs \<open>decorated\<close> in a thread of its own, with its own \<open>ip\<close> and \<open>now\<close>, on the
  shared store, and the interpreter may switch threads between two statements. A call is
  therefore modelled statement by statement: the pruning assignment, the test of the
  length, and the \<open>append\<close> followed by the wrapped view.
\<close>

datatype stage = Prune | Check | Append | Admitted | Rejected

record call =
  call_ip :: string
  call_now :: real
  stage :: stage

definition new_call :: "string \<Rightarrow> real \<Rightarrow> call" where
  "new_call ip now = \<lparr>call_ip = ip, call_now = now, stage = Prune\<rparr>"

text \<open>One statement of a call, on the shared store. A call that has returned does nothing.\<close>

definition step_call :: "call \<Rightarrow> rate_store \<Rightarrow> call \<times> rate_store" where
  "step_call c store =
     (case stage c of
        Prune \<Rightarrow>
          (c\<lparr>stage := Check\<rparr>,
           store(call_ip c \<mapsto>
             [t \<leftarrow> window_of store (call_ip c). call_now c - t < RATE_LIMIT_WINDOW]))
      | Check \<Rightarrow>
          (if length (window_of store (call_ip c)) \<ge> RATE_LIMIT_MAX
           then (c\<lparr>stage := Rejected\<rparr>, store)
           else (c\<lparr>stage := Append\<rparr>, store))
      | Append \<Rightarrow>
          (c\<lparr>stage := Admitted\<rparr>,
           store(call_ip c \<mapsto> window_of store (call_ip c) @ [call_now c]))
      | Admitted \<Rightarrow> (c, store)
      | Rejected \<Rightarrow> (c, store))"

text \<open>
  A schedule names, statement by statement, the call that runs next. \<open>[0, 0, 0, 1, 1, 1]\<close>
  runs two calls one after the other; \<open>[0, 0, 1, 1, 0, 1]\<close> lets both test the length
  before either appends.
\<close>

fun run_schedule :: "nat list \<Rightarrow> call list \<times> rate_store \<Rightarrow> call list \<times> rate_store" where
  "run_schedule [] st = st"
| "run_schedule (i # schedule) (calls, store) =
     (if i < length calls
      then (let (c, store1) = step_call (calls ! i) store
            in run_schedule schedule (calls[i := c], store1))
      else run_schedule schedule (calls, store))"

text \<open>A store reached by nineteen admitted requests of one client at time 5.\<close>

definition example_store19 :: rate_store where
  "example_store19 = run_checks (replicate 19 (''10.0.0.1'', 5)) Map.empty"

section \<open>Facts about strings and the taxonomy\<close>

lemma contains_sublist: "contains xs ys = sublist xs ys"
  by (induction ys) (auto simp: sublist_Cons_right)

lemma contains_Nil_left: "contains [] ys"
  by (cases ys) simp_all

lemma lower_Nil_iff: "lower s = [] \<longleftrightarrow> s = []"
  by (simp add: lower_def)

lemma match_loop_find:
  "match_loop l tbl =
     map_option snd (find (\<lambda>(key, info). contains key l \<or> contains l key) tbl)"
  by (induction l tbl rule: match_loop.induct) simp_all

lemmas lower_eval = lower_def lower_char_def ascii_uppercase_def ascii_lowercase_def

lemma match_melanoma: "match_class_info ''melanoma'' = map_of CLASS_INFO ''melanoma''"
  by (simp add: match_class_info_def CLASS_INFO_def lower_eval)

lemma match_melanocytic_nevus:
  "match_class_info ''Melanocytic Nevus'' = map_of CLASS_INFO ''nevus''"
  by (simp add: match_class_info_def CLASS_INFO_def lower_eval)

lemma match_unknown: "match_class_info ''xyz-unknown-123'' = None"
  by (simp add: match_class_info_def CLASS_INFO_def lower_eval)

lemma risk_melanoma: "map_option info_risk (map_of CLASS_INFO ''melanoma'') = Some ''Malignant''"
  by (simp add: CLASS_INFO_def)

lemma risk_nevus: "map_option info_risk (map_of CLASS_INFO ''nevus'') = Some ''Benign''"
  by (simp add: CLASS_INFO_def)

section \<open>Taxonomy lookup\<close>

text \<open>
  Claim C5. For every model label, the lookup takes the first entry of the table, in the
  order of the table, whose key is a substring of the lower-cased label or of whose key
  the lower-cased label is a substring (\<^const>\<open>sublist\<close> is contiguous containment). When
  no entry matches, the annotated result has risk "Unknown" and an empty description and
  recommendation; it is a value, not an error. The label "melanoma" gets risk "Malignant",
  "Melanocytic Nevus" gets the "nevus" entry and risk "Benign", and "xyz-unknown-123" gets
  risk "Unknown".
\<close>

theorem taxonomy_lookup:
  "match_class_info lbl =
     map_option snd
       (find (\<lambda>(key, info). sublist key (lower lbl) \<or> sublist (lower lbl) key) CLASS_INFO)
   \<and> (match_class_info lbl = None \<longrightarrow>
        risk (result_entry lbl p) = ''Unknown''
        \<and> description (result_entry lbl p) = ''''
        \<and> recommendation (result_entry lbl p) = '''')
   \<and> risk (result_entry ''melanoma'' p) = ''Malignant''
   \<and> match_class_info ''Melanocytic Nevus'' = map_of CLASS_INFO ''nevus''
   \<and> risk (result_entry ''Melanocytic Nevus'' p) = ''Benign''
   \<and> risk (result_entry ''xyz-unknown-123'' p) = ''Unknown''
   \<and> description (result_entry ''xyz-unknown-123'' p) = ''''
   \<and> recommendation (result_entry ''xyz-unknown-123'' p) = ''''"
proof -
  have first_match: "match_class_info lbl =
     map_option snd
       (find (\<lambda>(key, info). sublist key (lower lbl) \<or> sublist (lower lbl) key) CLASS_INFO)"
    by (simp add: match_class_info_def Let_def match_loop_find contains_sublist)
  have no_match: "match_class_info lbl = None \<longrightarrow>
        risk (result_entry lbl p) = ''Unknown''
        \<and> description (result_entry lbl p) = ''''
        \<and> recommendation (result_entry lbl p) = ''''"
    by (simp add: result_entry_def)
  have mel: "risk (result_entry ''melanoma'' p) = ''Malignant''"
    using risk_melanoma by (auto simp: result_entry_def match_melanoma)
  have nev: "risk (result_entry ''Melanocytic Nevus'' p) = ''Benign''"
    using risk_nevus by (auto simp: result_entry_def match_melanocytic_nevus)
  have unk: "risk (result_entry ''xyz-unknown-123'' p) = ''Unknown''
      \<and> description (result_entry ''xyz-unknown-123'' p) = ''''
      \<and> recommendation (result_entry ''xyz-unknown-123'' p) = ''''"
    by (simp add: result_entry_def match_unknown)
  from first_match no_match mel match_melanocytic_nevus nev unk show ?thesis
    by blast
qed

theorem taxonomy_lookup_witness:
  "match_class_info ''xyz-unknown-123'' = None
   \<and> risk (result_entry ''xyz-unknown-123'' (1 / 2)) = ''Unknown''
   \<and> description (result_entry ''xyz-unknown-123'' (1 / 2)) = ''''
   \<and> recommendation (result_entry ''xyz-unknown-123'' (1 / 2)) = ''''"
  using taxonomy_lookup [of "''xyz-unknown-123''" "1 / 2"] match_unknown by blast

text \<open>
  Claim C10. A label whose lower-casing is the empty string is the empty label. The empty
  string occurs in every key, so the lookup returns the first entry of the table, the one
  of "actinic keratosis" with risk "Pre-cancerous", and the annotated result never has the
  risk "Unknown".
\<close>

theorem empty_label_first_entry:
  "lower lbl = [] \<longrightarrow>
     match_class_info lbl = Some (snd (hd CLASS_INFO))
     \<and> fst (hd CLASS_INFO) = ''actinic keratosis''
     \<and> map_option info_risk (match_class_info lbl) = Some ''Pre-cancerous''
     \<and> risk (result_entry lbl p) = ''Pre-cancerous''
     \<and> risk (result_entry lbl p) \<noteq> ''Unknown''"
proof
  assume "lower lbl = []"
  then have m: "match_class_info lbl = Some (snd (hd CLASS_INFO))"
    by (simp add: match_class_info_def CLASS_INFO_def contains_Nil_left)
  have k: "fst (hd CLASS_INFO) = ''actinic keratosis''"
    and r: "info_risk (snd (hd CLASS_INFO)) = ''Pre-cancerous''"
    by (simp_all add: CLASS_INFO_def)
  from m r have "risk (result_entry lbl p) = ''Pre-cancerous''"
    by (simp add: result_entry_def)
  with m k r show "match_class_info lbl = Some (snd (hd CLASS_INFO))
     \<and> fst (hd CLASS_INFO) = ''actinic keratosis''
     \<and> map_option info_risk (match_class_info lbl) = Some ''Pre-cancerous''
     \<and> risk (result_entry lbl p) = ''Pre-cancerous''
     \<and> risk (result_entry lbl p) \<noteq> ''Unknown''"
    by simp
qed

theorem empty_label_first_entry_witness:
  "lower '''' = []
   \<and> map_option info_risk (match_class_info '''') = Some ''Pre-cancerous''
   \<and> risk (result_entry '''' (1 / 2)) = ''Pre-cancerous''"
proof -
  have "lower '''' = []"
    by (simp add: lower_def)
  with empty_label_first_entry [of "''''" "1 / 2"] show ?thesis
    by blast
qed

section \<open>Facts about the rate limiter\<close>

lemma window_of_upd: "window_of (store(ip \<mapsto> xs)) k = (if k = ip then xs else window_of store k)"
  by (simp add: window_of_def)

lemma window_of_empty: "window_of Map.empty k = []"
  by (simp add: window_of_def)

lemma admit_window:
  "window_of (fst (admit ip now store)) k =
     (if k = ip then
        (let kept = [t \<leftarrow> window_of store ip. now - t < RATE_LIMIT_WINDOW]
         in if RATE_LIMIT_MAX \<le> length kept then kept else kept @ [now])
      else window_of store k)"
  by (simp add: admit_def Let_def window_of_upd)

lemma admit_ok:
  "snd (admit ip now store) =
     (length [t \<leftarrow> window_of store ip. now - t < RATE_LIMIT_WINDOW] < RATE_LIMIT_MAX)"
  by (auto simp add: admit_def Let_def window_of_upd)


lemma admit_seq_window:
  assumes "\<forall>t \<in> set ts. \<forall>t' \<in> set (window_of store ip) \<union> set ts. t - t' < RATE_LIMIT_WINDOW"
  shows "window_of (fst (admit_seq ip ts store)) ip =
           window_of store ip @ take (RATE_LIMIT_MAX - length (window_of store ip)) ts
         \<and> length (filter (\<lambda>ok. ok) (snd (admit_seq ip ts store))) =
           min (length ts) (RATE_LIMIT_MAX - length (window_of store ip))"
  using assms
proof (induction ts arbitrary: store)
  case Nil
  then show ?case by simp
next
  case (Cons t ts)
  let ?w = "window_of store ip"
  have keep: "[x \<leftarrow> ?w. t - x < RATE_LIMIT_WINDOW] = ?w"
    using Cons.prems by (auto intro: filter_True)
  obtain store1 ok where a: "admit ip t store = (store1, ok)"
    by (cases "admit ip t store")
  have w1: "window_of store1 ip = (if RATE_LIMIT_MAX \<le> length ?w then ?w else ?w @ [t])"
    using admit_window [of ip t store ip] a keep by (simp add: Let_def)
  have ok: "ok = (length ?w < RATE_LIMIT_MAX)"
    using admit_ok [of ip t store] a keep by simp
  have "\<forall>u \<in> set ts. \<forall>t' \<in> set (window_of store1 ip) \<union> set ts. u - t' < RATE_LIMIT_WINDOW"
    using Cons.prems w1 by auto
  from Cons.IH [OF this] have IH:
    "window_of (fst (admit_seq ip ts store1)) ip =
       window_of store1 ip @ take (RATE_LIMIT_MAX - length (window_of store1 ip)) ts"
    "length (filter (\<lambda>ok. ok) (snd (admit_seq ip ts store1))) =
       min (length ts) (RATE_LIMIT_MAX - length (window_of store1 ip))"
    by blast+
  show ?case
  proof (cases "RATE_LIMIT_MAX \<le> length ?w")
    case True
    with a IH w1 ok show ?thesis
      by (simp add: split_beta)
  next
    case False
    then obtain m where m: "RATE_LIMIT_MAX - length ?w = Suc m"
      by (cases "RATE_LIMIT_MAX - length ?w") auto
    then have "RATE_LIMIT_MAX - Suc (length ?w) = m" by arith
    with False a IH w1 ok m show ?thesis
      by (simp add: split_beta)
  qed
qed

lemma run_checks_bounded:
  "\<forall>k. length (window_of store k) \<le> RATE_LIMIT_MAX \<Longrightarrow>
   length (window_of (run_checks cs store) k) \<le> RATE_LIMIT_MAX"
proof (induction cs arbitrary: store k)
  case Nil
  then show ?case by simp
next
  case (Cons c cs)
  obtain ip now where c: "c = (ip, now)" by (cases c)
  have "\<forall>k. length (window_of (fst (admit ip now store)) k) \<le> RATE_LIMIT_MAX"
  proof
    fix k
    have "length [t \<leftarrow> window_of store ip. now - t < RATE_LIMIT_WINDOW] \<le> RATE_LIMIT_MAX"
      using Cons.prems le_trans [OF length_filter_le] by blast
    then show "length (window_of (fst (admit ip now store)) k) \<le> RATE_LIMIT_MAX"
      using Cons.prems by (auto simp: admit_window Let_def)
  qed
  from Cons.IH [OF this] c show ?case by simp
qed

lemma admit_pruned_bound:
  "length (window_of store ip) \<le> RATE_LIMIT_MAX \<Longrightarrow>
   length (window_of (fst (admit ip now store)) ip) \<le> RATE_LIMIT_MAX"
proof -
  assume b: "length (window_of store ip) \<le> RATE_LIMIT_MAX"
  have "length [t \<leftarrow> window_of store ip. now - t < RATE_LIMIT_WINDOW] \<le> RATE_LIMIT_MAX"
    using b le_trans [OF length_filter_le] by blast
  then show ?thesis
    by (auto simp: admit_window Let_def)
qed


lemma rate_limit_unfold:
  "rate_limit f addr now (store, s) =
     (if snd (admit (client_key addr) now store)
      then ((fst (admit (client_key addr) now store), fst (f s)), snd (f s))
      else ((fst (admit (client_key addr) now store), s), too_many_requests))"
  by (simp add: rate_limit_def Let_def split_beta)

section \<open>The sliding window\<close>

text \<open>
  Claim C1. For every client key and every call of the rate-limited view at time \<open>now\<close>:
  the times \<open>t\<close> with \<open>now - t \<ge> RATE_LIMIT_WINDOW\<close> (60 seconds) are dropped from the key's
  list; if at least \<open>RATE_LIMIT_MAX\<close> (20) times remain, the answer is the 429 response, the
  view does not run and \<open>now\<close> is not recorded; otherwise \<open>now\<close> is appended and the view
  runs. Consequently, for a key with no history, after calls at times \<open>ts\<close> that lie with
  \<open>now\<close> within one window, \<open>N\<close> of them admitted, the next call at \<open>now\<close> is rejected
  exactly when \<open>N \<ge> RATE_LIMIT_MAX\<close>; and when every recorded time is a window or more
  old, the call is admitted and the list restarts at \<open>now\<close>.
\<close>

theorem rate_limit_window:
  "rate_limit f addr now (store, s) =
     (let ip = client_key addr;
          kept = [t \<leftarrow> window_of store ip. \<not> (now - t \<ge> RATE_LIMIT_WINDOW)]
      in if length kept \<ge> RATE_LIMIT_MAX
         then ((store(ip \<mapsto> kept), s),
               \<lparr>status = 429,
                body = ErrorBody ''Too many requests. Please wait a minute and try again.''\<rparr>)
         else ((store(ip \<mapsto> kept @ [now]), fst (f s)), snd (f s)))
   \<and> rate_limit f addr now (store, s) =
       (if snd (admit (client_key addr) now store)
        then ((fst (admit (client_key addr) now store), fst (f s)), snd (f s))
        else ((fst (admit (client_key addr) now store), s), too_many_requests))
   \<and> (window_of store ip = [] \<and> within_window (ts @ [now]) \<longrightarrow>
        (let (store1, oks) = admit_seq ip ts store;
             N = length (filter (\<lambda>ok. ok) oks)
         in N = min (length ts) RATE_LIMIT_MAX
            \<and> window_of store1 ip = take RATE_LIMIT_MAX ts
            \<and> (\<not> snd (admit ip now store1)) = (N \<ge> RATE_LIMIT_MAX)))
   \<and> ((\<forall>t \<in> set (window_of store ip). now - t \<ge> RATE_LIMIT_WINDOW) \<longrightarrow>
        snd (admit ip now store) \<and> window_of (fst (admit ip now store)) ip = [now])"
proof -
  have per_call: "rate_limit f addr now (store, s) =
     (let ip = client_key addr;
          kept = [t \<leftarrow> window_of store ip. \<not> (now - t \<ge> RATE_LIMIT_WINDOW)]
      in if length kept \<ge> RATE_LIMIT_MAX
         then ((store(ip \<mapsto> kept), s),
               \<lparr>status = 429,
                body = ErrorBody ''Too many requests. Please wait a minute and try again.''\<rparr>)
         else ((store(ip \<mapsto> kept @ [now]), fst (f s)), snd (f s)))"
    by (simp add: rate_limit_def admit_def Let_def split_beta window_of_upd
        too_many_requests_def not_le)
  have run: "window_of store ip = [] \<and> within_window (ts @ [now]) \<longrightarrow>
        (let (store1, oks) = admit_seq ip ts store;
             N = length (filter (\<lambda>ok. ok) oks)
         in N = min (length ts) RATE_LIMIT_MAX
            \<and> window_of store1 ip = take RATE_LIMIT_MAX ts
            \<and> (\<not> snd (admit ip now store1)) = (N \<ge> RATE_LIMIT_MAX))"
  proof
    assume a: "window_of store ip = [] \<and> within_window (ts @ [now])"
    then have "\<forall>t \<in> set ts. \<forall>t' \<in> set (window_of store ip) \<union> set ts. t - t' < RATE_LIMIT_WINDOW"
      by (simp add: within_window_def)
    from admit_seq_window [OF this] a
    have w: "window_of (fst (admit_seq ip ts store)) ip = take RATE_LIMIT_MAX ts"
      and n: "length (filter (\<lambda>ok. ok) (snd (admit_seq ip ts store))) =
                min (length ts) RATE_LIMIT_MAX"
      by simp_all
    from a have "\<forall>t \<in> set (take RATE_LIMIT_MAX ts). now - t < RATE_LIMIT_WINDOW"
      by (auto simp: within_window_def dest: in_set_takeD)
    then have "[t \<leftarrow> take RATE_LIMIT_MAX ts. now - t < RATE_LIMIT_WINDOW] = take RATE_LIMIT_MAX ts"
      by (auto intro: filter_True)
    with w have "snd (admit ip now (fst (admit_seq ip ts store))) =
        (min (length ts) RATE_LIMIT_MAX < RATE_LIMIT_MAX)"
      by (simp add: admit_ok)
    with w n show "(let (store1, oks) = admit_seq ip ts store;
             N = length (filter (\<lambda>ok. ok) oks)
         in N = min (length ts) RATE_LIMIT_MAX
            \<and> window_of store1 ip = take RATE_LIMIT_MAX ts
            \<and> (\<not> snd (admit ip now store1)) = (N \<ge> RATE_LIMIT_MAX))"
      by (simp add: split_beta Let_def not_less)
  qed
  have reset: "(\<forall>t \<in> set (window_of store ip). now - t \<ge> RATE_LIMIT_WINDOW) \<longrightarrow>
        snd (admit ip now store) \<and> window_of (fst (admit ip now store)) ip = [now]"
  proof
    assume "\<forall>t \<in> set (window_of store ip). now - t \<ge> RATE_LIMIT_WINDOW"
    then have "[t \<leftarrow> window_of store ip. now - t < RATE_LIMIT_WINDOW] = []"
      by (auto simp: filter_empty_conv)
    then show "snd (admit ip now store) \<and> window_of (fst (admit ip now store)) ip = [now]"
      by (simp add: admit_ok admit_window RATE_LIMIT_MAX_def)
  qed
  from per_call rate_limit_unfold [of f addr now store s] run reset show ?thesis
    by blast
qed

theorem rate_limit_window_witness:
  "window_of Map.empty ''10.0.0.1'' = []
   \<and> within_window (replicate 20 5 @ [6])
   \<and> \<not> snd (admit ''10.0.0.1'' 6 (fst (admit_seq ''10.0.0.1'' (replicate 20 5) Map.empty)))
   \<and> snd (admit ''10.0.0.1'' 65 (fst (admit_seq ''10.0.0.1'' (replicate 20 5) Map.empty)))"
proof -
  let ?ip = "''10.0.0.1''"
  let ?ts = "replicate 20 (5::real)"
  let ?store1 = "fst (admit_seq ?ip ?ts Map.empty)"
  have h1: "window_of Map.empty ?ip = []"
    by (simp add: window_of_def)
  have h2: "within_window (?ts @ [6])"
    by (simp add: within_window_def RATE_LIMIT_WINDOW_def)
  note run = rate_limit_window [where store = Map.empty and ip = ?ip and ts = ?ts and now = 6,
      THEN conjunct2, THEN conjunct2, THEN conjunct1, rule_format, OF conjI [OF h1 h2]]
  then have full:
    "window_of ?store1 ?ip = take RATE_LIMIT_MAX ?ts
     \<and> (\<not> snd (admit ?ip 6 ?store1)) = (min (length ?ts) RATE_LIMIT_MAX \<ge> RATE_LIMIT_MAX)"
    by (simp only: Let_def split_beta)
  then have rejected: "\<not> snd (admit ?ip 6 ?store1)"
    by (simp add: RATE_LIMIT_MAX_def)
  from full have aged: "\<forall>t \<in> set (window_of ?store1 ?ip). 65 - t \<ge> RATE_LIMIT_WINDOW"
    by (simp add: RATE_LIMIT_MAX_def RATE_LIMIT_WINDOW_def)
  note reset = rate_limit_window [where store = ?store1 and ip = ?ip and now = 65,
      THEN conjunct2, THEN conjunct2, THEN conjunct2, rule_format, OF aged [rule_format]]
  then have "snd (admit ?ip 65 ?store1)"
    by (rule conjunct1)
  with h1 h2 rejected show ?thesis
    by (intro conjI)
qed



section \<open>Facts about interleaved calls\<close>

lemma run_alone:
  "run_schedule [0, 0, 0] ([new_call ip now], store) =
     ([(new_call ip now)\<lparr>stage := (if snd (admit ip now store) then Admitted else Rejected)\<rparr>],
      fst (admit ip now store))"
  by (simp add: step_call_def new_call_def admit_def Let_def window_of_upd)

lemma run_serial:
  "run_schedule [0, 0, 0, 1, 1, 1] ([new_call ip n1, new_call ip' n2], store) =
     ([(new_call ip n1)\<lparr>stage := (if snd (admit ip n1 store) then Admitted else Rejected)\<rparr>,
       (new_call ip' n2)\<lparr>stage :=
          (if snd (admit ip' n2 (fst (admit ip n1 store))) then Admitted else Rejected)\<rparr>],
      fst (admit ip' n2 (fst (admit ip n1 store))))"
  by (simp add: step_call_def new_call_def admit_def Let_def window_of_upd)

lemma run_interleaved:
  assumes "length (window_of store ip) < RATE_LIMIT_MAX"
    and "\<forall>t \<in> set (window_of store ip). n1 - t < RATE_LIMIT_WINDOW \<and> n2 - t < RATE_LIMIT_WINDOW"
  shows "run_schedule [0, 0, 1, 1, 0, 1] ([new_call ip n1, new_call ip n2], store) =
     ([(new_call ip n1)\<lparr>stage := Admitted\<rparr>, (new_call ip n2)\<lparr>stage := Admitted\<rparr>],
      store(ip \<mapsto> window_of store ip @ [n1, n2]))"
proof -
  have k1: "[t \<leftarrow> window_of store ip. n1 - t < RATE_LIMIT_WINDOW] = window_of store ip"
    using assms(2) by (auto intro: filter_True)
  have k2: "[t \<leftarrow> window_of store ip. n2 - t < RATE_LIMIT_WINDOW] = window_of store ip"
    using assms(2) by (auto intro: filter_True)
  show ?thesis
    using assms(1) by (simp add: step_call_def new_call_def Let_def window_of_upd k1 k2)
qed

lemma run_checks_replicate:
  assumes "\<forall>x \<in> set (window_of store ip). t - x < RATE_LIMIT_WINDOW"
    and "length (window_of store ip) + n \<le> RATE_LIMIT_MAX"
  shows "window_of (run_checks (replicate n (ip, t)) store) ip = window_of store ip @ replicate n t"
  using assms
proof (induction n arbitrary: store)
  case 0
  then show ?case by simp
next
  case (Suc n)
  have keep: "[x \<leftarrow> window_of store ip. t - x < RATE_LIMIT_WINDOW] = window_of store ip"
    using Suc.prems(1) by (auto intro: filter_True)
  have w: "window_of (fst (admit ip t store)) ip = window_of store ip @ [t]"
    using Suc.prems(2) by (simp add: admit_window keep Let_def)
  have "window_of (run_checks (replicate n (ip, t)) (fst (admit ip t store))) ip
      = window_of (fst (admit ip t store)) ip @ replicate n t"
    using Suc.prems w by (intro Suc.IH) (auto simp: RATE_LIMIT_WINDOW_def)
  with w show ?case
    by (simp add: replicate_app_Cons_same)
qed

lemma example_store19_window: "window_of example_store19 ''10.0.0.1'' = replicate 19 5"
  unfolding example_store19_def
  using run_checks_replicate [of Map.empty "''10.0.0.1''" 5 19]
  by (simp add: window_of_empty RATE_LIMIT_MAX_def)

lemma serial_second_rejected:
  assumes "length (window_of store ip) = RATE_LIMIT_MAX - 1"
    and "\<forall>t \<in> set (window_of store ip). n1 - t < RATE_LIMIT_WINDOW \<and> n2 - t < RATE_LIMIT_WINDOW"
    and "n2 - n1 < RATE_LIMIT_WINDOW"
  shows "snd (admit ip n1 store) \<and> \<not> snd (admit ip n2 (fst (admit ip n1 store)))
         \<and> window_of (fst (admit ip n2 (fst (admit ip n1 store)))) ip = window_of store ip @ [n1]"
proof -
  have k1: "[t \<leftarrow> window_of store ip. n1 - t < RATE_LIMIT_WINDOW] = window_of store ip"
    using assms(2) by (auto intro: filter_True)
  have k2: "[t \<leftarrow> window_of store ip. n2 - t < RATE_LIMIT_WINDOW] = window_of store ip"
    using assms(2) by (auto intro: filter_True)
  have l: "length (window_of store ip) < RATE_LIMIT_MAX" "Suc (length (window_of store ip)) = RATE_LIMIT_MAX"
    using assms(1) by (simp_all add: RATE_LIMIT_MAX_def)
  have a1: "snd (admit ip n1 store)"
    using l(1) by (simp add: admit_ok k1)
  have w1: "window_of (fst (admit ip n1 store)) ip = window_of store ip @ [n1]"
    using l(1) by (simp add: admit_window k1 Let_def)
  have a2: "\<not> snd (admit ip n2 (fst (admit ip n1 store)))"
    using l(2) assms(3) by (simp add: admit_ok w1 k2)
  have w2: "window_of (fst (admit ip n2 (fst (admit ip n1 store)))) ip = window_of store ip @ [n1]"
    using admit_window [of ip n2 "fst (admit ip n1 store)" ip, unfolded w1] l(2) assms(3)
    by (simp add: k2 Let_def)
  from a1 a2 w2 show ?thesis
    by (intro conjI)
qed

section \<open>Two calls at once\<close>

text \<open>
  Claim C3, amended. Access to the rate limiter's store is not synchronized: the source
  takes no lock. Two admission checks on one key that run one after the other act as two
  admission checks in sequence; from every store reached by admission checks they leave at
  most \<open>RATE_LIMIT_MAX\<close> times for the key, and with \<open>RATE_LIMIT_MAX - 1\<close> fresh times
  stored the second is rejected. When their statements interleave so that both test the
  length before either appends, both are admitted and the key holds
  \<open>RATE_LIMIT_MAX + 1\<close> times.
\<close>

theorem concurrent_admission:
  "run_schedule [0, 0, 0, 1, 1, 1] ([new_call ip n1, new_call ip n2], store) =
     ([(new_call ip n1)\<lparr>stage := (if snd (admit ip n1 store) then Admitted else Rejected)\<rparr>,
       (new_call ip n2)\<lparr>stage :=
          (if snd (admit ip n2 (fst (admit ip n1 store))) then Admitted else Rejected)\<rparr>],
      fst (admit ip n2 (fst (admit ip n1 store))))
   \<and> length (window_of (snd (run_schedule [0, 0, 0, 1, 1, 1]
         ([new_call ip n1, new_call ip n2], run_checks cs Map.empty))) ip) \<le> RATE_LIMIT_MAX
   \<and> (length (window_of store ip) = RATE_LIMIT_MAX - 1
        \<and> (\<forall>t \<in> set (window_of store ip).
              n1 - t < RATE_LIMIT_WINDOW \<and> n2 - t < RATE_LIMIT_WINDOW)
        \<and> n2 - n1 < RATE_LIMIT_WINDOW \<longrightarrow>
        map stage (fst (run_schedule [0, 0, 0, 1, 1, 1]
            ([new_call ip n1, new_call ip n2], store))) = [Admitted, Rejected]
        \<and> length (window_of (snd (run_schedule [0, 0, 0, 1, 1, 1]
            ([new_call ip n1, new_call ip n2], store))) ip) = RATE_LIMIT_MAX
        \<and> map stage (fst (run_schedule [0, 0, 1, 1, 0, 1]
            ([new_call ip n1, new_call ip n2], store))) = [Admitted, Admitted]
        \<and> window_of (snd (run_schedule [0, 0, 1, 1, 0, 1]
            ([new_call ip n1, new_call ip n2], store))) ip = window_of store ip @ [n1, n2]
        \<and> length (window_of (snd (run_schedule [0, 0, 1, 1, 0, 1]
            ([new_call ip n1, new_call ip n2], store))) ip) = RATE_LIMIT_MAX + 1)"
proof (intro conjI impI)
  show "run_schedule [0, 0, 0, 1, 1, 1] ([new_call ip n1, new_call ip n2], store) =
     ([(new_call ip n1)\<lparr>stage := (if snd (admit ip n1 store) then Admitted else Rejected)\<rparr>,
       (new_call ip n2)\<lparr>stage :=
          (if snd (admit ip n2 (fst (admit ip n1 store))) then Admitted else Rejected)\<rparr>],
      fst (admit ip n2 (fst (admit ip n1 store))))"
    by (rule run_serial)
next
  have "\<forall>k. length (window_of (Map.empty :: rate_store) k) \<le> RATE_LIMIT_MAX"
    by (simp add: window_of_def)
  then have "length (window_of (run_checks cs Map.empty) ip) \<le> RATE_LIMIT_MAX"
    by (rule run_checks_bounded)
  then have "length (window_of (fst (admit ip n1 (run_checks cs Map.empty))) ip) \<le> RATE_LIMIT_MAX"
    by (rule admit_pruned_bound)
  then have "length (window_of (fst (admit ip n2 (fst (admit ip n1 (run_checks cs Map.empty))))) ip)
      \<le> RATE_LIMIT_MAX"
    by (rule admit_pruned_bound)
  then show "length (window_of (snd (run_schedule [0, 0, 0, 1, 1, 1]
         ([new_call ip n1, new_call ip n2], run_checks cs Map.empty))) ip) \<le> RATE_LIMIT_MAX"
    by (simp only: run_serial snd_conv)
next
  assume a: "length (window_of store ip) = RATE_LIMIT_MAX - 1
        \<and> (\<forall>t \<in> set (window_of store ip).
              n1 - t < RATE_LIMIT_WINDOW \<and> n2 - t < RATE_LIMIT_WINDOW)
        \<and> n2 - n1 < RATE_LIMIT_WINDOW"
  then have s: "snd (admit ip n1 store) \<and> \<not> snd (admit ip n2 (fst (admit ip n1 store)))
         \<and> window_of (fst (admit ip n2 (fst (admit ip n1 store)))) ip = window_of store ip @ [n1]"
    by (intro serial_second_rejected) simp_all
  from a have l: "length (window_of store ip) < RATE_LIMIT_MAX"
    "Suc (length (window_of store ip)) = RATE_LIMIT_MAX"
    by (simp_all add: RATE_LIMIT_MAX_def)
  from a l(1) have i: "run_schedule [0, 0, 1, 1, 0, 1] ([new_call ip n1, new_call ip n2], store) =
     ([(new_call ip n1)\<lparr>stage := Admitted\<rparr>, (new_call ip n2)\<lparr>stage := Admitted\<rparr>],
      store(ip \<mapsto> window_of store ip @ [n1, n2]))"
    by (intro run_interleaved) simp_all
  from s show "map stage (fst (run_schedule [0, 0, 0, 1, 1, 1]
            ([new_call ip n1, new_call ip n2], store))) = [Admitted, Rejected]"
    unfolding run_serial by simp
  from s l(2) show "length (window_of (snd (run_schedule [0, 0, 0, 1, 1, 1]
            ([new_call ip n1, new_call ip n2], store))) ip) = RATE_LIMIT_MAX"
    unfolding run_serial by simp
  show "map stage (fst (run_schedule [0, 0, 1, 1, 0, 1]
            ([new_call ip n1, new_call ip n2], store))) = [Admitted, Admitted]"
    unfolding i by simp
  show "window_of (snd (run_schedule [0, 0, 1, 1, 0, 1]
            ([new_call ip n1, new_call ip n2], store))) ip = window_of store ip @ [n1, n2]"
    unfolding i by (simp add: window_of_upd)
  from l(2) show "length (window_of (snd (run_schedule [0, 0, 1, 1, 0, 1]
            ([new_call ip n1, new_call ip n2], store))) ip) = RATE_LIMIT_MAX + 1"
    unfolding i by (simp add: window_of_upd)
qed

theorem concurrent_admission_witness:
  "length (window_of example_store19 ''10.0.0.1'') = RATE_LIMIT_MAX - 1
   \<and> map stage (fst (run_schedule [0, 0, 0, 1, 1, 1]
        ([new_call ''10.0.0.1'' 6, new_call ''10.0.0.1'' 7], example_store19)))
      = [Admitted, Rejected]
   \<and> length (window_of (snd (run_schedule [0, 0, 0, 1, 1, 1]
        ([new_call ''10.0.0.1'' 6, new_call ''10.0.0.1'' 7], example_store19))) ''10.0.0.1'')
      = RATE_LIMIT_MAX
   \<and> map stage (fst (run_schedule [0, 0, 1, 1, 0, 1]
        ([new_call ''10.0.0.1'' 6, new_call ''10.0.0.1'' 7], example_store19)))
      = [Admitted, Admitted]
   \<and> length (window_of (snd (run_schedule [0, 0, 1, 1, 0, 1]
        ([new_call ''10.0.0.1'' 6, new_call ''10.0.0.1'' 7], example_store19))) ''10.0.0.1'')
      = RATE_LIMIT_MAX + 1"
proof -
  have h1: "length (window_of example_store19 ''10.0.0.1'') = RATE_LIMIT_MAX - 1"
    by (simp add: example_store19_window RATE_LIMIT_MAX_def)
  have h: "length (window_of example_store19 ''10.0.0.1'') = RATE_LIMIT_MAX - 1
        \<and> (\<forall>t \<in> set (window_of example_store19 ''10.0.0.1'').
              6 - t < RATE_LIMIT_WINDOW \<and> 7 - t < RATE_LIMIT_WINDOW)
        \<and> (7::real) - 6 < RATE_LIMIT_WINDOW"
    using h1 by (simp add: example_store19_window RATE_LIMIT_WINDOW_def)
  note c = concurrent_admission [where store = example_store19 and ip = "''10.0.0.1''"
      and ?n1.0 = 6 and ?n2.0 = 7, THEN conjunct2, THEN conjunct2, THEN mp, OF h]
  from h1 c [THEN conjunct1] c [THEN conjunct2, THEN conjunct1]
    c [THEN conjunct2, THEN conjunct2, THEN conjunct1]
    c [THEN conjunct2, THEN conjunct2, THEN conjunct2, THEN conjunct2]
  show ?thesis
    by (intro conjI)
qed

text \<open>
  The claim as first stated fails on a store with nineteen times for a client, reached by
  nineteen admitted requests: two calls at times 6 and 7 that both prune and test before
  either appends are both admitted, and the client then has 21 times stored, above the
  maximum of 20.
\<close>

theorem concurrent_admission_counterexample:
  "length (window_of example_store19 ''10.0.0.1'') = 19
   \<and> map stage (fst (run_schedule [0, 0, 1, 1, 0, 1]
        ([new_call ''10.0.0.1'' 6, new_call ''10.0.0.1'' 7], example_store19)))
      = [Admitted, Admitted]
   \<and> length (window_of (snd (run_schedule [0, 0, 1, 1, 0, 1]
        ([new_call ''10.0.0.1'' 6, new_call ''10.0.0.1'' 7], example_store19))) ''10.0.0.1'')
      = 21
   \<and> RATE_LIMIT_MAX = 20"
proof -
  have l: "length (window_of example_store19 ''10.0.0.1'') < RATE_LIMIT_MAX"
    by (simp add: example_store19_window RATE_LIMIT_MAX_def)
  have f: "\<forall>t \<in> set (window_of example_store19 ''10.0.0.1'').
      6 - t < RATE_LIMIT_WINDOW \<and> 7 - t < RATE_LIMIT_WINDOW"
    by (simp add: example_store19_window RATE_LIMIT_WINDOW_def)
  note i = run_interleaved [OF l f]
  show ?thesis
    unfolding i by (simp add: window_of_upd example_store19_window RATE_LIMIT_MAX_def)
qed

section \<open>Facts about the view\<close>

lemma file_save_other: "q \<noteq> p \<Longrightarrow> fst (file_save env file p fs) q = fs q"
  by (simp add: file_save_def split: save_outcome.splits option.splits)

lemma try_body_fs: "fst (try_body env file p fs) = fst (file_save env file p fs)"
  by (simp add: try_body_def split: prod.splits option.splits sum.splits)

lemma finally_cleanup_eq: "finally_cleanup p fs = fs(p := None)"
  by (auto simp: finally_cleanup_def)

lemma cleanup_after_try: "finally_cleanup p (fst (try_body env file p fs)) = fs(p := None)"
proof
  fix q
  show "finally_cleanup p (fst (try_body env file p fs)) q = (fs(p := None)) q"
    by (simp add: finally_cleanup_eq try_body_fs file_save_other)
qed

lemma api_predict_try:
  assumes "files req ''image'' = Some file" "filename file \<noteq> ''''"
    "lower (path_suffix env (filename file)) \<in> set ALLOWED_EXTENSIONS"
    "content_type file = None \<or> content_type file = Some ''''
      \<or> (\<exists>ct. content_type file = Some ct \<and> ct \<in> set ALLOWED_MIMETYPES)"
  shows "api_predict env req fs =
    (let filepath = upload_path env (lower (path_suffix env (filename file)))
     in (fs(filepath := None),
         case snd (try_body env file filepath fs) of
           Inl e \<Rightarrow> error_response 500
                     ''An error occurred while processing the image. Please try again.''
         | Inr (Inl r) \<Rightarrow> r
         | Inr (Inr results) \<Rightarrow> \<lparr>status = 200, body = SuccessBody results\<rparr>))"
proof -
  let ?p = "upload_path env (lower (path_suffix env (filename file)))"
  have mime: "\<not> (case content_type file of None \<Rightarrow> False
                 | Some ct \<Rightarrow> ct \<noteq> '''' \<and> ct \<notin> set ALLOWED_MIMETYPES)"
    using assms(4) by (auto split: option.splits)
  obtain fs1 out where t: "try_body env file ?p fs = (fs1, out)"
    by (cases "try_body env file ?p fs")
  have c: "finally_cleanup ?p fs1 = fs(?p := None)"
    using cleanup_after_try [of ?p env "file" fs] t by simp
  show ?thesis
    using assms(1-3) mime t c
    by (simp add: api_predict_def Let_def split: sum.splits)
qed

lemma plain_suffix_example: "lower (plain_suffix ''lesion.JPG'') = ''.jpg''"
  by (simp add: plain_suffix_def lower_eval)

lemma example_outcome_success:
  "\<exists>results. snd (try_body example_env example_file p Map.empty) = Inr (Inr results)"
  by (simp add: try_body_def file_save_def validate_image_content_def example_env_def
      example_file_def run_prediction_def torch_topk_def example_probs_def)

lemma example_outcome_invalid:
  "snd (try_body (example_env\<lparr>image_verify := (\<lambda>b. False)\<rparr>) example_file p Map.empty)
     = Inr (Inl (error_response 400 ''The uploaded file is not a valid image.''))"
  by (simp add: try_body_def file_save_def validate_image_content_def example_env_def
      example_file_def)

lemma example_outcome_inference:
  "snd (try_body (example_env\<lparr>classify := (\<lambda>img. Inl RuntimeError)\<rparr>) example_file p Map.empty)
     = Inl RuntimeError"
  by (simp add: try_body_def file_save_def validate_image_content_def example_env_def
      example_file_def run_prediction_def)

lemma example_created:
  "fst (try_body example_env example_file p Map.empty) p = Some ''IMG-bytes''"
  by (simp add: try_body_fs file_save_def example_env_def example_file_def)

lemma example_checks:
  assumes "path_suffix E = plain_suffix"
  shows "files example_request ''image'' = Some example_file
   \<and> filename example_file \<noteq> ''''
   \<and> lower (path_suffix E (filename example_file)) \<in> set ALLOWED_EXTENSIONS
   \<and> (content_type example_file = None \<or> content_type example_file = Some ''''
        \<or> (\<exists>ct. content_type example_file = Some ct \<and> ct \<in> set ALLOWED_MIMETYPES))"
  using assms
  by (simp add: example_request_def example_file_def plain_suffix_example
      ALLOWED_EXTENSIONS_def ALLOWED_MIMETYPES_def)

lemma example_upload_path:
  assumes "path_suffix E = plain_suffix" "upload_dir E = ''uploads''"
    "uuid4_hex E = ''9f1c2b7e5a4d4c0e8b3a6d2f7c1e0a55''"
  shows "upload_path E (lower (path_suffix E (filename example_file)))
     = ''uploads/9f1c2b7e5a4d4c0e8b3a6d2f7c1e0a55.jpg''"
  using assms by (simp add: upload_path_def example_file_def plain_suffix_example)

section \<open>Cleanup of the temporary file\<close>

text \<open>
  Claim C2. For every request that reaches the \<open>try\<close> statement of the predict view (it
  has a file part with a non-empty name, an allowed extension and no disallowed declared
  type), whatever \<open>file.save\<close>, the content check, \<open>Image.open\<close> and the inference do, the
  uniquely named path holds no file when the view returns, and the rest of the upload
  directory is as before. This holds on each way out: the results (200), the failed content
  check (400) and any exception (500). Under the rate limiter the same holds when the
  request is admitted; a rejected request leaves the upload directory untouched.
\<close>

theorem cleanup_guarantee:
  "files req ''image'' = Some upload
   \<and> filename upload \<noteq> ''''
   \<and> lower (path_suffix env (filename upload)) \<in> set ALLOWED_EXTENSIONS
   \<and> (content_type upload = None \<or> content_type upload = Some ''''
        \<or> (\<exists>ct. content_type upload = Some ct \<and> ct \<in> set ALLOWED_MIMETYPES))
   \<longrightarrow>
     (let filepath = upload_path env (lower (path_suffix env (filename upload)));
          outcome = snd (try_body env upload filepath fs)
      in fst (api_predict env req fs) filepath = None
         \<and> fst (api_predict env req fs) = fs(filepath := None)
         \<and> snd (api_predict env req fs) =
             (case outcome of
                Inl e \<Rightarrow> error_response 500
                          ''An error occurred while processing the image. Please try again.''
              | Inr (Inl r) \<Rightarrow> r
              | Inr (Inr results) \<Rightarrow> \<lparr>status = 200, body = SuccessBody results\<rparr>)
         \<and> snd (fst (predict_endpoint env req now (store, fs))) =
             (if snd (admit (client_key (remote_addr req)) now store)
              then fs(filepath := None) else fs))"
proof
  assume a: "files req ''image'' = Some upload
   \<and> filename upload \<noteq> ''''
   \<and> lower (path_suffix env (filename upload)) \<in> set ALLOWED_EXTENSIONS
   \<and> (content_type upload = None \<or> content_type upload = Some ''''
        \<or> (\<exists>ct. content_type upload = Some ct \<and> ct \<in> set ALLOWED_MIMETYPES))"
  then have "api_predict env req fs =
    (let filepath = upload_path env (lower (path_suffix env (filename upload)))
     in (fs(filepath := None),
         case snd (try_body env upload filepath fs) of
           Inl e \<Rightarrow> error_response 500
                     ''An error occurred while processing the image. Please try again.''
         | Inr (Inl r) \<Rightarrow> r
         | Inr (Inr results) \<Rightarrow> \<lparr>status = 200, body = SuccessBody results\<rparr>))"
    by (intro api_predict_try) simp_all
  then show "(let filepath = upload_path env (lower (path_suffix env (filename upload)));
          outcome = snd (try_body env upload filepath fs)
      in fst (api_predict env req fs) filepath = None
         \<and> fst (api_predict env req fs) = fs(filepath := None)
         \<and> snd (api_predict env req fs) =
             (case outcome of
                Inl e \<Rightarrow> error_response 500
                          ''An error occurred while processing the image. Please try again.''
              | Inr (Inl r) \<Rightarrow> r
              | Inr (Inr results) \<Rightarrow> \<lparr>status = 200, body = SuccessBody results\<rparr>)
         \<and> snd (fst (predict_endpoint env req now (store, fs))) =
             (if snd (admit (client_key (remote_addr req)) now store)
              then fs(filepath := None) else fs))"
    by (simp add: Let_def predict_endpoint_def rate_limit_unfold)
qed

theorem cleanup_guarantee_witness:
  "fst (try_body example_env example_file ''uploads/9f1c2b7e5a4d4c0e8b3a6d2f7c1e0a55.jpg'' Map.empty)
      ''uploads/9f1c2b7e5a4d4c0e8b3a6d2f7c1e0a55.jpg'' = Some ''IMG-bytes''
   \<and> fst (api_predict example_env example_request Map.empty)
      ''uploads/9f1c2b7e5a4d4c0e8b3a6d2f7c1e0a55.jpg'' = None
   \<and> status (snd (api_predict example_env example_request Map.empty)) = 200
   \<and> fst (api_predict (example_env\<lparr>image_verify := (\<lambda>b. False)\<rparr>) example_request Map.empty)
      ''uploads/9f1c2b7e5a4d4c0e8b3a6d2f7c1e0a55.jpg'' = None
   \<and> status (snd (api_predict (example_env\<lparr>image_verify := (\<lambda>b. False)\<rparr>) example_request
        Map.empty)) = 400
   \<and> fst (api_predict (example_env\<lparr>classify := (\<lambda>img. Inl RuntimeError)\<rparr>) example_request
        Map.empty) ''uploads/9f1c2b7e5a4d4c0e8b3a6d2f7c1e0a55.jpg'' = None
   \<and> status (snd (api_predict (example_env\<lparr>classify := (\<lambda>img. Inl RuntimeError)\<rparr>)
        example_request Map.empty)) = 500"
proof -
  let ?p = "''uploads/9f1c2b7e5a4d4c0e8b3a6d2f7c1e0a55.jpg''"
  let ?E2 = "example_env\<lparr>image_verify := (\<lambda>b. False)\<rparr>"
  let ?E3 = "example_env\<lparr>classify := (\<lambda>img. Inl RuntimeError)\<rparr>"
  have e1: "path_suffix example_env = plain_suffix" "upload_dir example_env = ''uploads''"
    "uuid4_hex example_env = ''9f1c2b7e5a4d4c0e8b3a6d2f7c1e0a55''"
    by (simp_all add: example_env_def)
  have e2: "path_suffix ?E2 = plain_suffix" "upload_dir ?E2 = ''uploads''"
    "uuid4_hex ?E2 = ''9f1c2b7e5a4d4c0e8b3a6d2f7c1e0a55''"
    by (simp_all add: example_env_def)
  have e3: "path_suffix ?E3 = plain_suffix" "upload_dir ?E3 = ''uploads''"
    "uuid4_hex ?E3 = ''9f1c2b7e5a4d4c0e8b3a6d2f7c1e0a55''"
    by (simp_all add: example_env_def)
  note g1 = cleanup_guarantee [where env = example_env and req = example_request
      and upload = example_file and fs = Map.empty, THEN mp, OF example_checks [OF e1(1)],
      unfolded Let_def example_upload_path [OF e1]]
  note g2 = cleanup_guarantee [where env = ?E2 and req = example_request
      and upload = example_file and fs = Map.empty, THEN mp, OF example_checks [OF e2(1)],
      unfolded Let_def example_upload_path [OF e2]]
  note g3 = cleanup_guarantee [where env = ?E3 and req = example_request
      and upload = example_file and fs = Map.empty, THEN mp, OF example_checks [OF e3(1)],
      unfolded Let_def example_upload_path [OF e3]]
  obtain results where "snd (try_body example_env example_file ?p Map.empty) = Inr (Inr results)"
    using example_outcome_success by blast
  with g1 have s1: "status (snd (api_predict example_env example_request Map.empty)) = 200"
    by simp
  from g2 have s2: "status (snd (api_predict ?E2 example_request Map.empty)) = 400"
    by (simp add: example_outcome_invalid error_response_def)
  from g3 have s3: "status (snd (api_predict ?E3 example_request Map.empty)) = 500"
    by (simp add: example_outcome_inference error_response_def)
  from example_created [of ?p] g1 [THEN conjunct1] s1 g2 [THEN conjunct1] s2
    g3 [THEN conjunct1] s3
  show ?thesis
    by (intro conjI)
qed

lemma try_body_return:
  "snd (try_body env file p fs) = Inr (Inl r) \<Longrightarrow>
   r = error_response 400 ''The uploaded file is not a valid image.''"
  by (auto simp: try_body_def split: prod.splits option.splits sum.splits if_splits)

lemma try_body_invalid:
  "save_result env = Saved \<Longrightarrow> \<not> image_verify env (stream file) \<Longrightarrow>
   snd (try_body env file p fs) =
     Inr (Inl (error_response 400 ''The uploaded file is not a valid image.''))"
  by (simp add: try_body_def file_save_def validate_image_content_def)

lemma reasons_distinct:
  "distinct [''No image file provided.'', ''No file selected.'', unsupported_format env ext,
     ''Invalid file type.'', ''The uploaded file is not a valid image.'']"
  by (simp add: unsupported_format_def)

lemma allowed_extensions_set:
  "set ALLOWED_EXTENSIONS = {''.jpg'', ''.jpeg'', ''.png'', ''.bmp'', ''.tiff'', ''.webp''}"
  by (simp add: ALLOWED_EXTENSIONS_def)

lemma absent_type_tolerated:
  assumes "files req ''image'' = Some file"
    and "content_type file = None \<or> content_type file = Some ''''"
  shows "snd (api_predict env req fs) \<noteq> error_response 400 ''Invalid file type.''"
proof (cases "filename file \<noteq> '''' \<and> lower (path_suffix env (filename file)) \<in> set ALLOWED_EXTENSIONS")
  case True
  with assms have "api_predict env req fs =
    (let filepath = upload_path env (lower (path_suffix env (filename file)))
     in (fs(filepath := None),
         case snd (try_body env file filepath fs) of
           Inl e \<Rightarrow> error_response 500
                     ''An error occurred while processing the image. Please try again.''
         | Inr (Inl r) \<Rightarrow> r
         | Inr (Inr results) \<Rightarrow> \<lparr>status = 200, body = SuccessBody results\<rparr>))"
    by (intro api_predict_try) auto
  then show ?thesis
    by (auto simp: Let_def error_response_def split: sum.splits dest!: try_body_return)
next
  case False
  with assms(1) show ?thesis
    by (auto simp: api_predict_def Let_def error_response_def unsupported_format_def)
qed

lemma example_env_fields:
  "path_suffix example_env = plain_suffix"
  "save_result example_env = Saved"
  "image_verify example_env = prefix ''IMG''"
  by (simp_all add: example_env_def)

lemma plain_suffix_exe: "lower (plain_suffix ''lesion.exe'') = ''.exe''"
  by (simp add: plain_suffix_def lower_eval)

section \<open>The order of the validation checks\<close>

text \<open>
  Claim C4. The predict view checks, in this order and stopping at the first failure: that
  the request has the file part, that the file name is not empty, that the lower-cased
  suffix of the name is one of .jpg, .jpeg, .png, .bmp, .tiff, .webp, that a declared
  content type is an allowed one, and, after saving, that the bytes are a valid image. Each
  failure is a 400 response with a reason of its own. A file whose extension is not allowed
  is rejected whatever its bytes and its declared type are, with nothing saved and no
  content check; a missing or empty declared type is never the reason of a rejection, and a
  declared type outside the allowed ones is.
\<close>

theorem validation_order:
  "(files req ''image'' = None \<longrightarrow>
      api_predict env req fs = (fs, error_response 400 ''No image file provided.''))
   \<and> (files req ''image'' = Some upload \<and> filename upload = '''' \<longrightarrow>
      api_predict env req fs = (fs, error_response 400 ''No file selected.''))
   \<and> (files req ''image'' = Some upload \<and> filename upload \<noteq> ''''
        \<and> lower (path_suffix env (filename upload)) \<notin> set ALLOWED_EXTENSIONS \<longrightarrow>
      api_predict env req fs =
        (fs, error_response 400
               (unsupported_format env (lower (path_suffix env (filename upload))))))
   \<and> (files req ''image'' = Some upload \<and> filename upload \<noteq> ''''
        \<and> lower (path_suffix env (filename upload)) \<in> set ALLOWED_EXTENSIONS
        \<and> content_type upload = Some ct \<and> ct \<noteq> '''' \<and> ct \<notin> set ALLOWED_MIMETYPES \<longrightarrow>
      api_predict env req fs = (fs, error_response 400 ''Invalid file type.''))
   \<and> (files req ''image'' = Some upload \<and> filename upload \<noteq> ''''
        \<and> lower (path_suffix env (filename upload)) \<in> set ALLOWED_EXTENSIONS
        \<and> (content_type upload = None \<or> content_type upload = Some ''''
             \<or> (\<exists>t. content_type upload = Some t \<and> t \<in> set ALLOWED_MIMETYPES))
        \<and> save_result env = Saved \<and> \<not> image_verify env (stream upload) \<longrightarrow>
      api_predict env req fs =
        (fs(upload_path env (lower (path_suffix env (filename upload))) := None),
         error_response 400 ''The uploaded file is not a valid image.''))
   \<and> distinct [''No image file provided.'', ''No file selected.'', unsupported_format env ext,
        ''Invalid file type.'', ''The uploaded file is not a valid image.'']
   \<and> set ALLOWED_EXTENSIONS = {''.jpg'', ''.jpeg'', ''.png'', ''.bmp'', ''.tiff'', ''.webp''}
   \<and> (files req ''image'' = Some upload
        \<and> (content_type upload = None \<or> content_type upload = Some '''') \<longrightarrow>
      snd (api_predict env req fs) \<noteq> error_response 400 ''Invalid file type.'')"
proof -
  have presence: "files req ''image'' = None \<longrightarrow>
      api_predict env req fs = (fs, error_response 400 ''No image file provided.'')"
    by (simp add: api_predict_def)
  have name: "files req ''image'' = Some upload \<and> filename upload = '''' \<longrightarrow>
      api_predict env req fs = (fs, error_response 400 ''No file selected.'')"
    by (simp add: api_predict_def)
  have extension: "files req ''image'' = Some upload \<and> filename upload \<noteq> ''''
        \<and> lower (path_suffix env (filename upload)) \<notin> set ALLOWED_EXTENSIONS \<longrightarrow>
      api_predict env req fs =
        (fs, error_response 400
               (unsupported_format env (lower (path_suffix env (filename upload)))))"
    by (simp add: api_predict_def Let_def)
  have mime: "files req ''image'' = Some upload \<and> filename upload \<noteq> ''''
        \<and> lower (path_suffix env (filename upload)) \<in> set ALLOWED_EXTENSIONS
        \<and> content_type upload = Some ct \<and> ct \<noteq> '''' \<and> ct \<notin> set ALLOWED_MIMETYPES \<longrightarrow>
      api_predict env req fs = (fs, error_response 400 ''Invalid file type.'')"
    by (simp add: api_predict_def Let_def)
  have content: "files req ''image'' = Some upload \<and> filename upload \<noteq> ''''
        \<and> lower (path_suffix env (filename upload)) \<in> set ALLOWED_EXTENSIONS
        \<and> (content_type upload = None \<or> content_type upload = Some ''''
             \<or> (\<exists>t. content_type upload = Some t \<and> t \<in> set ALLOWED_MIMETYPES))
        \<and> save_result env = Saved \<and> \<not> image_verify env (stream upload) \<longrightarrow>
      api_predict env req fs =
        (fs(upload_path env (lower (path_suffix env (filename upload))) := None),
         error_response 400 ''The uploaded file is not a valid image.'')"
  proof
    assume a: "files req ''image'' = Some upload \<and> filename upload \<noteq> ''''
        \<and> lower (path_suffix env (filename upload)) \<in> set ALLOWED_EXTENSIONS
        \<and> (content_type upload = None \<or> content_type upload = Some ''''
             \<or> (\<exists>t. content_type upload = Some t \<and> t \<in> set ALLOWED_MIMETYPES))
        \<and> save_result env = Saved \<and> \<not> image_verify env (stream upload)"
    then have "api_predict env req fs =
      (let filepath = upload_path env (lower (path_suffix env (filename upload)))
       in (fs(filepath := None),
           case snd (try_body env upload filepath fs) of
             Inl e \<Rightarrow> error_response 500
                       ''An error occurred while processing the image. Please try again.''
           | Inr (Inl r) \<Rightarrow> r
           | Inr (Inr results) \<Rightarrow> \<lparr>status = 200, body = SuccessBody results\<rparr>))"
      by (intro api_predict_try) simp_all
    with a show "api_predict env req fs =
        (fs(upload_path env (lower (path_suffix env (filename upload))) := None),
         error_response 400 ''The uploaded file is not a valid image.'')"
      by (simp add: Let_def try_body_invalid)
  qed
  have tolerated: "files req ''image'' = Some upload
        \<and> (content_type upload = None \<or> content_type upload = Some '''') \<longrightarrow>
      snd (api_predict env req fs) \<noteq> error_response 400 ''Invalid file type.''"
    using absent_type_tolerated [of req upload env fs] by blast
  from presence name extension mime content reasons_distinct [of env ext]
    allowed_extensions_set tolerated
  show ?thesis
    by (intro conjI)
qed

theorem validation_order_witness:
  "api_predict example_env (example_request\<lparr>files := Map.empty\<rparr>) Map.empty
     = (Map.empty, error_response 400 ''No image file provided.'')
   \<and> api_predict example_env
        (example_request\<lparr>files := [''image'' \<mapsto> example_file\<lparr>filename := ''''\<rparr>]\<rparr>) Map.empty
     = (Map.empty, error_response 400 ''No file selected.'')
   \<and> api_predict example_env
        (example_request\<lparr>files := [''image'' \<mapsto> example_file\<lparr>filename := ''lesion.exe''\<rparr>]\<rparr>)
        Map.empty
     = (Map.empty, error_response 400 (unsupported_format example_env ''.exe''))
   \<and> api_predict example_env
        (example_request\<lparr>files := [''image'' \<mapsto> example_file\<lparr>content_type := Some ''text/html''\<rparr>]\<rparr>)
        Map.empty
     = (Map.empty, error_response 400 ''Invalid file type.'')
   \<and> api_predict example_env
        (example_request\<lparr>files := [''image'' \<mapsto> example_file\<lparr>stream := ''<html>''\<rparr>]\<rparr>)
        Map.empty
     = (Map.empty, error_response 400 ''The uploaded file is not a valid image.'')
   \<and> snd (api_predict example_env
        (example_request\<lparr>files := [''image'' \<mapsto> example_file\<lparr>content_type := None\<rparr>]\<rparr>)
        Map.empty)
     \<noteq> error_response 400 ''Invalid file type.''"
proof -
  let ?none = "example_request\<lparr>files := Map.empty\<rparr>"
  let ?f2 = "example_file\<lparr>filename := ''''\<rparr>"
  let ?f3 = "example_file\<lparr>filename := ''lesion.exe''\<rparr>"
  let ?f4 = "example_file\<lparr>content_type := Some ''text/html''\<rparr>"
  let ?f5 = "example_file\<lparr>stream := ''<html>''\<rparr>"
  let ?f6 = "example_file\<lparr>content_type := None\<rparr>"
  have h1: "files ?none ''image'' = None"
    by simp
  note c1 = validation_order [where req = ?none and env = example_env and fs = Map.empty,
      THEN conjunct1, THEN mp, OF h1]
  have h2: "files (example_request\<lparr>files := [''image'' \<mapsto> ?f2]\<rparr>) ''image'' = Some ?f2
      \<and> filename ?f2 = ''''"
    by simp
  note c2 = validation_order [where req = "example_request\<lparr>files := [''image'' \<mapsto> ?f2]\<rparr>"
      and upload = ?f2 and env = example_env and fs = Map.empty,
      THEN conjunct2, THEN conjunct1, THEN mp, OF h2]
  have h3: "files (example_request\<lparr>files := [''image'' \<mapsto> ?f3]\<rparr>) ''image'' = Some ?f3
      \<and> filename ?f3 \<noteq> ''''
      \<and> lower (path_suffix example_env (filename ?f3)) \<notin> set ALLOWED_EXTENSIONS"
    by (simp add: example_env_fields plain_suffix_exe ALLOWED_EXTENSIONS_def)
  have e3: "lower (path_suffix example_env (filename ?f3)) = ''.exe''"
    by (simp add: example_env_fields plain_suffix_exe)
  note c3 = validation_order [where req = "example_request\<lparr>files := [''image'' \<mapsto> ?f3]\<rparr>"
      and upload = ?f3 and env = example_env and fs = Map.empty,
      THEN conjunct2, THEN conjunct2, THEN conjunct1, THEN mp, OF h3, unfolded e3]
  have h4: "files (example_request\<lparr>files := [''image'' \<mapsto> ?f4]\<rparr>) ''image'' = Some ?f4
      \<and> filename ?f4 \<noteq> ''''
      \<and> lower (path_suffix example_env (filename ?f4)) \<in> set ALLOWED_EXTENSIONS
      \<and> content_type ?f4 = Some ''text/html'' \<and> ''text/html'' \<noteq> ''''
      \<and> ''text/html'' \<notin> set ALLOWED_MIMETYPES"
    by (simp add: example_env_fields example_file_def plain_suffix_example
        ALLOWED_EXTENSIONS_def ALLOWED_MIMETYPES_def)
  note c4 = validation_order [where req = "example_request\<lparr>files := [''image'' \<mapsto> ?f4]\<rparr>"
      and upload = ?f4 and env = example_env and fs = Map.empty and ct = "''text/html''",
      THEN conjunct2, THEN conjunct2, THEN conjunct2, THEN conjunct1, THEN mp, OF h4]
  have h5: "files (example_request\<lparr>files := [''image'' \<mapsto> ?f5]\<rparr>) ''image'' = Some ?f5
      \<and> filename ?f5 \<noteq> ''''
      \<and> lower (path_suffix example_env (filename ?f5)) \<in> set ALLOWED_EXTENSIONS
      \<and> (content_type ?f5 = None \<or> content_type ?f5 = Some ''''
           \<or> (\<exists>t. content_type ?f5 = Some t \<and> t \<in> set ALLOWED_MIMETYPES))
      \<and> save_result example_env = Saved \<and> \<not> image_verify example_env (stream ?f5)"
    by (simp add: example_env_fields example_file_def plain_suffix_example
        ALLOWED_EXTENSIONS_def ALLOWED_MIMETYPES_def)
  note c5 = validation_order [where req = "example_request\<lparr>files := [''image'' \<mapsto> ?f5]\<rparr>"
      and upload = ?f5 and env = example_env and fs = Map.empty,
      THEN conjunct2, THEN conjunct2, THEN conjunct2, THEN conjunct2, THEN conjunct1,
      THEN mp, OF h5]
  then have c5': "api_predict example_env (example_request\<lparr>files := [''image'' \<mapsto> ?f5]\<rparr>)
      Map.empty = (Map.empty, error_response 400 ''The uploaded file is not a valid image.'')"
    by simp
  have h6: "files (example_request\<lparr>files := [''image'' \<mapsto> ?f6]\<rparr>) ''image'' = Some ?f6
      \<and> (content_type ?f6 = None \<or> content_type ?f6 = Some '''')"
    by simp
  note c6 = validation_order [where req = "example_request\<lparr>files := [''image'' \<mapsto> ?f6]\<rparr>"
      and upload = ?f6 and env = example_env and fs = Map.empty,
      THEN conjunct2, THEN conjunct2, THEN conjunct2, THEN conjunct2, THEN conjunct2,
      THEN conjunct2, THEN conjunct2, THEN mp, OF h6]
  from c1 c2 c3 c4 c5' c6 show ?thesis
    by (intro conjI)
qed

section \<open>Facts about rounding, the top-k primitive and the examples\<close>

lemma round_half_even_bounds:
  "of_int (round_half_even y) - y \<le> 1 / 2 \<and> y - of_int (round_half_even y) \<le> 1 / 2"
proof -
  define f where "f = \<lfloor>y\<rfloor>"
  have "of_int f \<le> y" "y < of_int f + 1"
    unfolding f_def by linarith+
  then show ?thesis
    unfolding round_half_even_def Let_def f_def [symmetric]
    by (auto simp del: of_int_add) (simp_all add: algebra_simps)
qed

lemma round_half_even_range:
  "\<lfloor>y\<rfloor> \<le> round_half_even y \<and> round_half_even y \<le> \<lfloor>y\<rfloor> + 1"
  by (auto simp: round_half_even_def Let_def)

lemma round_half_even_mono:
  assumes "x \<le> y"
  shows "round_half_even x \<le> round_half_even y"
proof (cases "\<lfloor>x\<rfloor> = \<lfloor>y\<rfloor>")
  case True
  with assms show ?thesis
    by (auto simp: round_half_even_def Let_def)
next
  case False
  with assms have "\<lfloor>x\<rfloor> + 1 \<le> \<lfloor>y\<rfloor>"
    using floor_mono [OF assms] by linarith
  with round_half_even_range [of x] round_half_even_range [of y] show ?thesis
    by linarith
qed

lemma py_round2_mono: "x \<le> y \<Longrightarrow> py_round2 x \<le> py_round2 y"
  by (simp add: py_round2_def divide_right_mono round_half_even_mono)

lemma abs_diff_le:
  fixes a b h :: real
  assumes "a - b \<le> h" "b - a \<le> h"
  shows "\<bar>a - b\<bar> \<le> h"
  using assms by linarith

lemma py_round2_error: "\<bar>py_round2 x - x\<bar> \<le> 1 / 200"
proof -
  have "\<bar>of_int (round_half_even (x * 100)) - x * 100\<bar> \<le> 1 / 2"
    by (rule abs_diff_le) (simp_all only: round_half_even_bounds)
  moreover have "py_round2 x - x = (of_int (round_half_even (x * 100)) - x * 100) / 100"
    by (simp add: py_round2_def field_simps)
  ultimately show ?thesis
    by (simp only: abs_divide) simp
qed

lemma py_round2_62: "py_round2 (62 / 100 * 100) = 62"
  by (simp add: py_round2_def round_half_even_def)

lemma zip_upt_member:
  "(p, i) \<in> set (zip probs [0..<length probs]) \<longleftrightarrow> i < length probs \<and> probs ! i = p"
  by (auto simp: in_set_zip)

lemma torch_topk_contract: "topk_contract torch_topk"
  unfolding topk_contract_def
proof (intro allI)
  fix probs :: "real list" and k :: int
  let ?zs = "zip probs [0..<length probs]"
  let ?sorted = "sort_key (\<lambda>(p, i). - p) ?zs"
  let ?sel = "take (nat k) ?sorted"
  show "if 0 \<le> k \<and> k \<le> int (length probs)
        then \<exists>sel. torch_topk probs k = Inr sel
                \<and> length sel = nat k
                \<and> sorted_wrt (\<lambda>a b. fst a \<ge> fst b) sel
                \<and> distinct (map snd sel)
                \<and> (\<forall>(p, i) \<in> set sel. i < length probs \<and> probs ! i = p)
                \<and> (\<forall>j < length probs. j \<notin> snd ` set sel \<longrightarrow>
                      (\<forall>(p, i) \<in> set sel. probs ! j \<le> p))
        else torch_topk probs k = Inl RuntimeError"
  proof (cases "0 \<le> k \<and> k \<le> int (length probs)")
    case False
    then show ?thesis
      by (auto simp: torch_topk_def)
  next
    case True
    have r: "torch_topk probs k = Inr ?sel"
      using True by (simp add: torch_topk_def)
    have "nat k \<le> length probs"
      using True by linarith
    then have len: "length ?sel = nat k"
      by simp
    have "sorted (map (\<lambda>(p, i). - p) ?sorted)"
      by (rule sorted_sort_key)
    then have desc: "sorted_wrt (\<lambda>a b. fst a \<ge> fst b) ?sorted"
      by (simp add: sorted_map case_prod_beta)
    then have s: "sorted_wrt (\<lambda>a b. fst a \<ge> fst b) ?sel"
      by (rule sorted_wrt_take)
    have "map snd ?zs = [0..<length probs]"
      by simp
    then have "distinct (map snd ?zs)"
      by simp
    then have "distinct ?zs \<and> inj_on snd (set ?zs)"
      by (simp only: distinct_map)
    then have "distinct ?sorted \<and> inj_on snd (set ?sorted)"
      by (simp only: distinct_sort set_sort)
    then have "distinct (map snd ?sorted)"
      by (simp only: distinct_map)
    then have "distinct (take (nat k) (map snd ?sorted))"
      by (rule distinct_take)
    then have d: "distinct (map snd ?sel)"
      by (simp only: take_map)
    have sub: "set ?sel \<subseteq> set ?zs"
      using set_take_subset [of "nat k" ?sorted] by (simp only: set_sort)
    have m: "\<forall>(p, i) \<in> set ?sel. i < length probs \<and> probs ! i = p"
    proof (clarify)
      fix p i
      assume "(p, i) \<in> set ?sel"
      with sub have "(p, i) \<in> set ?zs"
        by (rule subsetD)
      then show "i < length probs \<and> probs ! i = p"
        by (simp only: zip_upt_member)
    qed
    have rest: "\<forall>j < length probs. j \<notin> snd ` set ?sel \<longrightarrow>
                      (\<forall>(p, i) \<in> set ?sel. probs ! j \<le> p)"
    proof (intro allI impI)
      fix j
      assume j: "j < length probs" and out: "j \<notin> snd ` set ?sel"
      from j have "(probs ! j, j) \<in> set ?zs"
        by (simp only: zip_upt_member)
      then have "(probs ! j, j) \<in> set (?sel @ drop (nat k) ?sorted)"
        by (simp only: append_take_drop_id set_sort)
      then have inx: "(probs ! j, j) \<in> set ?sel \<or> (probs ! j, j) \<in> set (drop (nat k) ?sorted)"
        by (simp only: set_append Un_iff)
      have "(probs ! j, j) \<notin> set ?sel"
      proof
        assume "(probs ! j, j) \<in> set ?sel"
        then have "snd (probs ! j, j) \<in> snd ` set ?sel"
          by (rule imageI)
        with out show False
          by (simp only: snd_conv)
      qed
      with inx have dr: "(probs ! j, j) \<in> set (drop (nat k) ?sorted)"
        by (simp only: simp_thms)
      have "sorted_wrt (\<lambda>a b. fst a \<ge> fst b) (?sel @ drop (nat k) ?sorted)"
        using desc by (simp only: append_take_drop_id)
      then have cross: "\<forall>a \<in> set ?sel. \<forall>b \<in> set (drop (nat k) ?sorted). fst a \<ge> fst b"
        by (simp only: sorted_wrt_append) (elim conjE, assumption)
      show "\<forall>(p, i) \<in> set ?sel. probs ! j \<le> p"
      proof (clarify)
        fix p i
        assume "(p, i) \<in> set ?sel"
        then have "\<forall>b \<in> set (drop (nat k) ?sorted). fst (p, i) \<ge> fst b"
          by (rule bspec [OF cross])
        then have "fst (p, i) \<ge> fst (probs ! j, j)"
          using dr by (rule bspec)
        then show "probs ! j \<le> p"
          by (simp only: fst_conv)
      qed
    qed
    show ?thesis
      unfolding if_P [OF True] using r len s d m rest
      by (intro exI [of _ ?sel] conjI)
  qed
qed

lemma upt_5: "[0..<5] = [0, 1, 2, 3, 4]"
  by (simp add: upt_rec)

lemma example_topk_3:
  "torch_topk example_probs 3 = Inr [(62 / 100, 2), (20 / 100, 3), (10 / 100, 1)]"
  by (simp add: torch_topk_def example_probs_def upt_5)

lemma example_topk_5:
  "torch_topk example_probs 5 =
     Inr [(62 / 100, 2), (20 / 100, 3), (10 / 100, 1), (5 / 100, 4), (3 / 100, 0)]"
  by (simp add: torch_topk_def example_probs_def upt_5)

lemma confidence_result_entry: "confidence (result_entry lbl p) = py_round2 (p * 100)"
  by (simp add: result_entry_def Let_def)

lemma label_result_entry: "label (result_entry lbl p) = lbl"
  by (simp add: result_entry_def Let_def)

lemma results_descending:
  assumes "sorted_wrt (\<lambda>a b. fst a \<ge> fst b) sel"
  shows "sorted_wrt (\<lambda>a b. confidence a \<ge> confidence b)
           (map (\<lambda>(prob, idx). result_entry (id2label env idx) prob) sel)"
proof -
  have "sorted_wrt (\<lambda>a b. py_round2 (fst a * 100) \<ge> py_round2 (fst b * 100)) sel"
    using assms by (rule sorted_wrt_mono_rel [rotated]) (simp add: py_round2_mono)
  then show ?thesis
    by (simp add: sorted_wrt_map case_prod_beta confidence_result_entry)
qed

lemma cli_descending:
  assumes "sorted_wrt (\<lambda>a b. fst a \<ge> fst b) sel"
  shows "sorted_wrt (\<lambda>a b. cli_confidence a \<ge> cli_confidence b)
           (map (\<lambda>(prob, idx). \<lparr>cli_label = id2label env idx, cli_confidence = prob\<rparr>) sel)"
  using assms by (simp add: sorted_wrt_map case_prod_beta)

lemma topk_contract_in_range:
  assumes "topk_contract tk" "0 \<le> k" "k \<le> int (length probs)"
  shows "\<exists>sel. tk probs k = Inr sel
          \<and> length sel = nat k
          \<and> sorted_wrt (\<lambda>a b. fst a \<ge> fst b) sel
          \<and> distinct (map snd sel)
          \<and> (\<forall>(p, i) \<in> set sel. i < length probs \<and> probs ! i = p)
          \<and> (\<forall>j < length probs. j \<notin> snd ` set sel \<longrightarrow> (\<forall>(p, i) \<in> set sel. probs ! j \<le> p))"
proof -
  from assms(1) have "if 0 \<le> k \<and> k \<le> int (length probs)
        then \<exists>sel. tk probs k = Inr sel
                \<and> length sel = nat k
                \<and> sorted_wrt (\<lambda>a b. fst a \<ge> fst b) sel
                \<and> distinct (map snd sel)
                \<and> (\<forall>(p, i) \<in> set sel. i < length probs \<and> probs ! i = p)
                \<and> (\<forall>j < length probs. j \<notin> snd ` set sel \<longrightarrow>
                      (\<forall>(p, i) \<in> set sel. probs ! j \<le> p))
        else tk probs k = Inl RuntimeError"
    unfolding topk_contract_def by (elim allE)
  with assms(2,3) show ?thesis
    by (simp only: simp_thms if_True)
qed

lemma topk_contract_negative:
  assumes "topk_contract tk" "k < 0"
  shows "tk probs k = Inl RuntimeError"
proof -
  from assms(1) have "if 0 \<le> k \<and> k \<le> int (length probs)
        then \<exists>sel. tk probs k = Inr sel
                \<and> length sel = nat k
                \<and> sorted_wrt (\<lambda>a b. fst a \<ge> fst b) sel
                \<and> distinct (map snd sel)
                \<and> (\<forall>(p, i) \<in> set sel. i < length probs \<and> probs ! i = p)
                \<and> (\<forall>j < length probs. j \<notin> snd ` set sel \<longrightarrow>
                      (\<forall>(p, i) \<in> set sel. probs ! j \<le> p))
        else tk probs k = Inl RuntimeError"
    unfolding topk_contract_def by (elim allE)
  moreover from assms(2) have "\<not> (0 \<le> k \<and> k \<le> int (length probs))"
    by simp
  ultimately show ?thesis
    by (simp only: if_False)
qed

lemma example_env_model:
  "topk example_env = torch_topk"
  "classify example_env img = Inr example_probs"
  "id2label example_env = (\<lambda>i. example_labels ! i)"
  by (simp_all add: example_env_def)

lemma py_round2_hundredths: "\<exists>m :: int. py_round2 x = of_int m / 100"
  by (auto simp: py_round2_def)

lemma py_round2_nearest:
  fixes m :: int
  shows "\<bar>py_round2 x - x\<bar> \<le> \<bar>of_int m / 100 - x\<bar>"
proof (cases "of_int m / 100 = py_round2 x")
  case True
  then show ?thesis by simp
next
  case False
  define r where "r = round_half_even (x * 100)"
  have pr: "py_round2 x = of_int r / 100"
    by (simp add: py_round2_def r_def)
  with False have "m \<noteq> r"
    by auto
  then have "1 \<le> \<bar>m - r\<bar>"
    by linarith
  then have far: "(1::real) \<le> \<bar>of_int m - of_int r\<bar>"
    by (metis of_int_1_le_iff of_int_abs of_int_diff)
  have near: "\<bar>of_int r - x * 100\<bar> \<le> 1 / 2"
    unfolding r_def by (rule abs_diff_le) (simp_all only: round_half_even_bounds)
  from far near have "\<bar>of_int r - x * 100\<bar> \<le> \<bar>of_int m - x * 100\<bar>"
    by linarith
  then have "\<bar>of_int r - x * 100\<bar> / 100 \<le> \<bar>of_int m - x * 100\<bar> / 100"
    by (rule divide_right_mono) simp
  then have le: "\<bar>(of_int r - x * 100) / 100\<bar> \<le> \<bar>(of_int m - x * 100) / 100\<bar>"
    by (simp only: abs_divide abs_numeral)
  have e1: "py_round2 x - x = (of_int r - x * 100) / 100"
    by (simp add: pr field_simps)
  have e2: "of_int m / 100 - x = (of_int m - x * 100) / 100"
    by (simp add: field_simps)
  from le show ?thesis
    by (simp only: e1 e2)
qed

lemma run_prediction_entries:
  assumes "run_prediction env img top_k = Inr results"
  shows "\<exists>probs sel. classify env img = Inr probs
           \<and> topk env probs (min top_k (int (length probs))) = Inr sel
           \<and> length results = length sel
           \<and> (\<forall>n < length sel.
                 label (results ! n) = id2label env (snd (sel ! n))
                 \<and> confidence (results ! n) = py_round2 (fst (sel ! n) * 100))"
proof -
  from assms obtain probs where p: "classify env img = Inr probs"
    by (auto simp: run_prediction_def split: sum.splits)
  with assms obtain sel where s: "topk env probs (min top_k (int (length probs))) = Inr sel"
    by (auto simp: run_prediction_def split: sum.splits)
  with assms p have r: "results = map (\<lambda>(prob, idx). result_entry (id2label env idx) prob) sel"
    by (simp add: run_prediction_def)
  then have "\<forall>n < length sel.
                 label (results ! n) = id2label env (snd (sel ! n))
                 \<and> confidence (results ! n) = py_round2 (fst (sel ! n) * 100)"
    by (simp add: case_prod_beta label_result_entry confidence_result_entry)
  with p s r show ?thesis
    by auto
qed

lemma melanoma_first:
  assumes "classify env img = Inr probs"
    and "topk env probs (min top_k (int (length probs))) = Inr ((62 / 100, idx) # others)"
    and "id2label env idx = ''melanoma''"
  shows "\<exists>r rs. run_prediction env img top_k = Inr (r # rs)
           \<and> label r = ''melanoma'' \<and> confidence r = 62 \<and> risk r = ''Malignant''"
proof -
  have "risk (result_entry ''melanoma'' (62 / 100)) = ''Malignant''"
    using risk_melanoma by (auto simp: result_entry_def match_melanoma)
  moreover have "confidence (result_entry ''melanoma'' (62 / 100)) = 62"
    by (simp only: confidence_result_entry py_round2_62)
  ultimately show ?thesis
    using assms by (simp add: run_prediction_def label_result_entry)
qed

lemma api_predict_success:
  assumes "files req ''image'' = Some upload" "filename upload \<noteq> ''''"
    "lower (path_suffix env (filename upload)) \<in> set ALLOWED_EXTENSIONS"
    "content_type upload = None \<or> content_type upload = Some ''''
      \<or> (\<exists>ct. content_type upload = Some ct \<and> ct \<in> set ALLOWED_MIMETYPES)"
    "save_result env = Saved" "image_verify env (stream upload)"
    "image_open env (stream upload) = Inr img" "run_prediction env img 5 = Inr results"
  shows "api_predict env req fs =
    (fs(upload_path env (lower (path_suffix env (filename upload))) := None),
     \<lparr>status = 200, body = SuccessBody results\<rparr>)"
proof -
  have "snd (try_body env upload (upload_path env (lower (path_suffix env (filename upload)))) fs)
      = Inr (Inr results)"
    using assms(5-8) by (simp add: try_body_def file_save_def validate_image_content_def)
  with api_predict_try [OF assms(1-4), of fs] show ?thesis
    by (simp add: Let_def)
qed

section \<open>Aggregation of the top predictions\<close>

text \<open>
  Claim C7, amended. For every probability vector and every requested \<open>top_k \<ge> 0\<close>, with a
  top-k primitive that meets its contract, \<open>run_prediction\<close> (and \<open>predict\<close> of the script)
  returns exactly \<open>min top_k (length probs)\<close> entries: one per selected pair, in the order in
  which the primitive returned them, nothing re-sorted; the selected probabilities and the
  reported confidences are in descending order, and no probability left out exceeds a
  selected one. For \<open>top_k < 0\<close> the primitive raises and no entries are returned.
\<close>

theorem aggregation_top_k:
  "(topk_contract (topk env) \<and> classify env img = Inr probs \<and> 0 \<le> top_k \<longrightarrow>
     (\<exists>sel results cli.
        topk env probs (min top_k (int (length probs))) = Inr sel
        \<and> run_prediction env img top_k = Inr results
        \<and> predict env img top_k = Inr cli
        \<and> int (length results) = min top_k (int (length probs))
        \<and> int (length cli) = min top_k (int (length probs))
        \<and> results = map (\<lambda>(prob, idx). result_entry (id2label env idx) prob) sel
        \<and> cli = map (\<lambda>(prob, idx). \<lparr>cli_label = id2label env idx, cli_confidence = prob\<rparr>) sel
        \<and> sorted_wrt (\<lambda>a b. fst a \<ge> fst b) sel
        \<and> sorted_wrt (\<lambda>a b. confidence a \<ge> confidence b) results
        \<and> sorted_wrt (\<lambda>a b. cli_confidence a \<ge> cli_confidence b) cli
        \<and> (\<forall>j < length probs. j \<notin> snd ` set sel \<longrightarrow> (\<forall>(p, i) \<in> set sel. probs ! j \<le> p))))
   \<and> (topk_contract (topk env) \<and> classify env img = Inr probs \<and> top_k < 0 \<longrightarrow>
        run_prediction env img top_k = Inl RuntimeError
        \<and> predict env img top_k = Inl RuntimeError)"
proof (intro conjI impI)
  assume a: "topk_contract (topk env) \<and> classify env img = Inr probs \<and> 0 \<le> top_k"
  let ?k = "min top_k (int (length probs))"
  from a have "0 \<le> ?k" "?k \<le> int (length probs)"
    by simp_all
  with a obtain sel where sel: "topk env probs ?k = Inr sel" "length sel = nat ?k"
      "sorted_wrt (\<lambda>a b. fst a \<ge> fst b) sel"
      "\<forall>j < length probs. j \<notin> snd ` set sel \<longrightarrow> (\<forall>(p, i) \<in> set sel. probs ! j \<le> p)"
    using topk_contract_in_range [of "topk env" ?k probs] by blast
  let ?results = "map (\<lambda>(prob, idx). result_entry (id2label env idx) prob) sel"
  let ?cli = "map (\<lambda>(prob, idx). \<lparr>cli_label = id2label env idx, cli_confidence = prob\<rparr>) sel"
  have r: "run_prediction env img top_k = Inr ?results"
    using a sel(1) by (simp add: run_prediction_def)
  have c: "predict env img top_k = Inr ?cli"
    using a sel(1) by (simp add: predict_def)
  have l: "int (length ?results) = ?k" "int (length ?cli) = ?k"
    using sel(2) \<open>0 \<le> ?k\<close> by simp_all
  from sel(1) r c l sel(3) results_descending [OF sel(3), of env] cli_descending [OF sel(3), of env]
    sel(4)
  show "\<exists>sel results cli.
        topk env probs (min top_k (int (length probs))) = Inr sel
        \<and> run_prediction env img top_k = Inr results
        \<and> predict env img top_k = Inr cli
        \<and> int (length results) = min top_k (int (length probs))
        \<and> int (length cli) = min top_k (int (length probs))
        \<and> results = map (\<lambda>(prob, idx). result_entry (id2label env idx) prob) sel
        \<and> cli = map (\<lambda>(prob, idx). \<lparr>cli_label = id2label env idx, cli_confidence = prob\<rparr>) sel
        \<and> sorted_wrt (\<lambda>a b. fst a \<ge> fst b) sel
        \<and> sorted_wrt (\<lambda>a b. confidence a \<ge> confidence b) results
        \<and> sorted_wrt (\<lambda>a b. cli_confidence a \<ge> cli_confidence b) cli
        \<and> (\<forall>j < length probs. j \<notin> snd ` set sel \<longrightarrow> (\<forall>(p, i) \<in> set sel. probs ! j \<le> p))"
    by (intro exI [of _ sel] exI [of _ ?results] exI [of _ ?cli] conjI refl)
next
  assume a: "topk_contract (topk env) \<and> classify env img = Inr probs \<and> top_k < 0"
  then have "min top_k (int (length probs)) < 0"
    by simp
  with a have "topk env probs (min top_k (int (length probs))) = Inl RuntimeError"
    using topk_contract_negative by blast
  with a show "run_prediction env img top_k = Inl RuntimeError"
    by (simp add: run_prediction_def)
  from a \<open>topk env probs (min top_k (int (length probs))) = Inl RuntimeError\<close>
  show "predict env img top_k = Inl RuntimeError"
    by (simp add: predict_def)
qed

theorem aggregation_top_k_witness:
  "topk_contract (topk example_env)
   \<and> classify example_env [0] = Inr example_probs
   \<and> (\<exists>results. run_prediction example_env [0] 3 = Inr results
         \<and> length results = 3
         \<and> map label results = [''melanoma'', ''nevus'', ''dermatofibroma'']
         \<and> sorted_wrt (\<lambda>a b. confidence a \<ge> confidence b) results)"
proof -
  have h1: "topk_contract (topk example_env)"
    by (simp add: example_env_model torch_topk_contract)
  have h2: "classify example_env [0] = Inr example_probs"
    by (simp add: example_env_model)
  have h: "topk_contract (topk example_env) \<and> classify example_env [0] = Inr example_probs
      \<and> (0::int) \<le> 3"
    using h1 h2 by simp
  from aggregation_top_k [where env = example_env and img = "[0]" and probs = example_probs
      and top_k = 3, THEN conjunct1, THEN mp, OF h]
  obtain sel results where
    sel: "topk example_env example_probs (min 3 (int (length example_probs))) = Inr sel"
    and r: "run_prediction example_env [0] 3 = Inr results"
    and l: "int (length results) = min 3 (int (length example_probs))"
    and m: "results = map (\<lambda>(prob, idx). result_entry (id2label example_env idx) prob) sel"
    and s: "sorted_wrt (\<lambda>a b. confidence a \<ge> confidence b) results"
    by (elim exE conjE)
  have k: "min 3 (int (length example_probs)) = 3"
    by (simp add: example_probs_def)
  from l have l3: "length results = 3"
    by (simp only: k)
  from sel have "sel = [(62 / 100, 2), (20 / 100, 3), (10 / 100, 1)]"
    by (simp only: k example_env_model example_topk_3 sum.inject)
  then have "results = [result_entry (example_labels ! 2) (62 / 100),
      result_entry (example_labels ! 3) (20 / 100), result_entry (example_labels ! 1) (10 / 100)]"
    by (simp only: m example_env_model list.map case_prod_conv)
  then have lab: "map label results = [''melanoma'', ''nevus'', ''dermatofibroma'']"
    by (simp add: label_result_entry example_labels_def)
  have "\<exists>results. run_prediction example_env [0] 3 = Inr results
         \<and> length results = 3
         \<and> map label results = [''melanoma'', ''nevus'', ''dermatofibroma'']
         \<and> sorted_wrt (\<lambda>a b. confidence a \<ge> confidence b) results"
    using r l3 lab s by (intro exI [of _ results] conjI)
  with h1 h2 show ?thesis
    by (intro conjI)
qed

text \<open>
  The claim as first stated, for every requested \<open>top_k\<close>, fails at \<open>top_k = -1\<close>: the
  minimum is \<open>-1\<close>, \<open>torch.topk\<close> raises, and no list of entries is returned.
\<close>

theorem aggregation_top_k_counterexample:
  "run_prediction example_env [0] (- 1) = Inl RuntimeError
   \<and> predict example_env [0] (- 1) = Inl RuntimeError
   \<and> min (- 1) (int (length example_probs)) = - 1"
  by (simp add: run_prediction_def predict_def example_env_model torch_topk_def
      example_probs_def)

section \<open>The reported confidence\<close>

text \<open>
  Claim C8. Every entry that \<open>run_prediction\<close> returns for a selected probability \<open>p\<close> has
  the confidence \<open>round(p * 100, 2)\<close>: a multiple of one hundredth, at least as near to
  \<open>p * 100\<close> as any other, so at most 0.005 away. When the top selected pair is the label
  "melanoma" with probability 0.62, the first entry is melanoma with confidence 62.0 and
  risk "Malignant", and for an upload that passes the checks the 200 response of the predict
  view lists that entry first.
\<close>

theorem confidence_rounding:
  "(run_prediction env img top_k = Inr results \<longrightarrow>
      (\<exists>probs sel. classify env img = Inr probs
         \<and> topk env probs (min top_k (int (length probs))) = Inr sel
         \<and> length results = length sel
         \<and> (\<forall>n < length sel.
               label (results ! n) = id2label env (snd (sel ! n))
               \<and> confidence (results ! n) = py_round2 (fst (sel ! n) * 100))))
   \<and> confidence (result_entry lbl p) = py_round2 (p * 100)
   \<and> (\<exists>m :: int. py_round2 x = of_int m / 100)
   \<and> (\<forall>m :: int. \<bar>py_round2 x - x\<bar> \<le> \<bar>of_int m / 100 - x\<bar>)
   \<and> \<bar>py_round2 x - x\<bar> \<le> 1 / 200
   \<and> (classify env img = Inr probs
        \<and> topk env probs (min top_k (int (length probs))) = Inr ((62 / 100, idx) # others)
        \<and> id2label env idx = ''melanoma'' \<longrightarrow>
        (\<exists>r rs. run_prediction env img top_k = Inr (r # rs)
           \<and> label r = ''melanoma'' \<and> confidence r = 62 \<and> risk r = ''Malignant''))
   \<and> (files req ''image'' = Some upload \<and> filename upload \<noteq> ''''
        \<and> lower (path_suffix env (filename upload)) \<in> set ALLOWED_EXTENSIONS
        \<and> (content_type upload = None \<or> content_type upload = Some ''''
             \<or> (\<exists>ct. content_type upload = Some ct \<and> ct \<in> set ALLOWED_MIMETYPES))
        \<and> save_result env = Saved \<and> image_verify env (stream upload)
        \<and> image_open env (stream upload) = Inr img
        \<and> classify env img = Inr probs
        \<and> topk env probs (min 5 (int (length probs))) = Inr ((62 / 100, idx) # others)
        \<and> id2label env idx = ''melanoma'' \<longrightarrow>
        (\<exists>r rs. snd (api_predict env req fs) = \<lparr>status = 200, body = SuccessBody (r # rs)\<rparr>
           \<and> label r = ''melanoma'' \<and> confidence r = 62 \<and> risk r = ''Malignant''))"
proof -
  have entries: "run_prediction env img top_k = Inr results \<longrightarrow>
      (\<exists>probs sel. classify env img = Inr probs
         \<and> topk env probs (min top_k (int (length probs))) = Inr sel
         \<and> length results = length sel
         \<and> (\<forall>n < length sel.
               label (results ! n) = id2label env (snd (sel ! n))
               \<and> confidence (results ! n) = py_round2 (fst (sel ! n) * 100)))"
    using run_prediction_entries [of env img top_k results] by (rule impI)
  have nearest: "\<forall>m :: int. \<bar>py_round2 x - x\<bar> \<le> \<bar>of_int m / 100 - x\<bar>"
    using py_round2_nearest [of x] by (rule allI)
  have melanoma: "classify env img = Inr probs
        \<and> topk env probs (min top_k (int (length probs))) = Inr ((62 / 100, idx) # others)
        \<and> id2label env idx = ''melanoma'' \<longrightarrow>
        (\<exists>r rs. run_prediction env img top_k = Inr (r # rs)
           \<and> label r = ''melanoma'' \<and> confidence r = 62 \<and> risk r = ''Malignant'')"
  proof
    assume a: "classify env img = Inr probs
        \<and> topk env probs (min top_k (int (length probs))) = Inr ((62 / 100, idx) # others)
        \<and> id2label env idx = ''melanoma''"
    show "\<exists>r rs. run_prediction env img top_k = Inr (r # rs)
           \<and> label r = ''melanoma'' \<and> confidence r = 62 \<and> risk r = ''Malignant''"
      by (rule melanoma_first [of env img probs top_k idx others]) (simp_all only: a)
  qed
  have response: "files req ''image'' = Some upload \<and> filename upload \<noteq> ''''
        \<and> lower (path_suffix env (filename upload)) \<in> set ALLOWED_EXTENSIONS
        \<and> (content_type upload = None \<or> content_type upload = Some ''''
             \<or> (\<exists>ct. content_type upload = Some ct \<and> ct \<in> set ALLOWED_MIMETYPES))
        \<and> save_result env = Saved \<and> image_verify env (stream upload)
        \<and> image_open env (stream upload) = Inr img
        \<and> classify env img = Inr probs
        \<and> topk env probs (min 5 (int (length probs))) = Inr ((62 / 100, idx) # others)
        \<and> id2label env idx = ''melanoma'' \<longrightarrow>
        (\<exists>r rs. snd (api_predict env req fs) = \<lparr>status = 200, body = SuccessBody (r # rs)\<rparr>
           \<and> label r = ''melanoma'' \<and> confidence r = 62 \<and> risk r = ''Malignant'')"
  proof
    assume a: "files req ''image'' = Some upload \<and> filename upload \<noteq> ''''
        \<and> lower (path_suffix env (filename upload)) \<in> set ALLOWED_EXTENSIONS
        \<and> (content_type upload = None \<or> content_type upload = Some ''''
             \<or> (\<exists>ct. content_type upload = Some ct \<and> ct \<in> set ALLOWED_MIMETYPES))
        \<and> save_result env = Saved \<and> image_verify env (stream upload)
        \<and> image_open env (stream upload) = Inr img
        \<and> classify env img = Inr probs
        \<and> topk env probs (min 5 (int (length probs))) = Inr ((62 / 100, idx) # others)
        \<and> id2label env idx = ''melanoma''"
    then obtain r rs where r: "run_prediction env img 5 = Inr (r # rs)"
      "label r = ''melanoma''" "confidence r = 62" "risk r = ''Malignant''"
      using melanoma_first [of env img probs 5 idx others] by blast
    from a r(1) have "api_predict env req fs =
      (fs(upload_path env (lower (path_suffix env (filename upload))) := None),
       \<lparr>status = 200, body = SuccessBody (r # rs)\<rparr>)"
      by (intro api_predict_success) simp_all
    then have "snd (api_predict env req fs) = \<lparr>status = 200, body = SuccessBody (r # rs)\<rparr>"
      by simp
    with r(2-4) show "\<exists>r rs. snd (api_predict env req fs)
           = \<lparr>status = 200, body = SuccessBody (r # rs)\<rparr>
           \<and> label r = ''melanoma'' \<and> confidence r = 62 \<and> risk r = ''Malignant''"
      by blast
  qed
  from entries confidence_result_entry [of lbl p] py_round2_hundredths [of x] nearest
    py_round2_error [of x] melanoma response
  show ?thesis
    by (intro conjI)
qed

theorem confidence_rounding_witness:
  "classify example_env [9] = Inr example_probs
   \<and> topk example_env example_probs (min 5 (int (length example_probs)))
       = Inr [(62 / 100, 2), (20 / 100, 3), (10 / 100, 1), (5 / 100, 4), (3 / 100, 0)]
   \<and> id2label example_env 2 = ''melanoma''
   \<and> (\<exists>r rs. run_prediction example_env [9] 5 = Inr (r # rs)
         \<and> label r = ''melanoma'' \<and> confidence r = 62 \<and> risk r = ''Malignant'')
   \<and> (\<exists>r rs. snd (api_predict example_env example_request Map.empty)
           = \<lparr>status = 200, body = SuccessBody (r # rs)\<rparr>
         \<and> label r = ''melanoma'' \<and> confidence r = 62 \<and> risk r = ''Malignant'')"
proof -
  let ?others = "[(20 / 100, 3), (10 / 100, 1), (5 / 100, 4), (3 / 100, 0 :: nat)] :: (real \<times> nat) list"
  have k: "min 5 (int (length example_probs)) = 5"
    by (simp add: example_probs_def)
  have h1: "classify example_env [9] = Inr example_probs"
    by (simp add: example_env_model)
  have h2: "topk example_env example_probs (min 5 (int (length example_probs)))
       = Inr ((62 / 100, 2) # ?others)"
    by (simp only: k example_env_model example_topk_5)
  have h3: "id2label example_env 2 = ''melanoma''"
    by (simp add: example_env_model example_labels_def)
  from h1 h2 h3 have h: "classify example_env [9] = Inr example_probs
        \<and> topk example_env example_probs (min 5 (int (length example_probs)))
            = Inr ((62 / 100, 2) # ?others)
        \<and> id2label example_env 2 = ''melanoma''"
    by (intro conjI)
  note ex = confidence_rounding [where env = example_env and img = "[9]" and top_k = 5
      and probs = example_probs and idx = 2 and others = ?others,
      THEN conjunct2, THEN conjunct2, THEN conjunct2, THEN conjunct2, THEN conjunct2,
      THEN conjunct1, THEN mp, OF h]
  have e: "path_suffix example_env = plain_suffix"
    by (simp add: example_env_def)
  have open_ok: "save_result example_env = Saved \<and> image_verify example_env (stream example_file)
      \<and> image_open example_env (stream example_file) = Inr [9]"
    by (simp add: example_env_def example_file_def)
  from example_checks [OF e] open_ok h
  have g: "files example_request ''image'' = Some example_file \<and> filename example_file \<noteq> ''''
        \<and> lower (path_suffix example_env (filename example_file)) \<in> set ALLOWED_EXTENSIONS
        \<and> (content_type example_file = None \<or> content_type example_file = Some ''''
             \<or> (\<exists>ct. content_type example_file = Some ct \<and> ct \<in> set ALLOWED_MIMETYPES))
        \<and> save_result example_env = Saved \<and> image_verify example_env (stream example_file)
        \<and> image_open example_env (stream example_file) = Inr [9]
        \<and> classify example_env [9] = Inr example_probs
        \<and> topk example_env example_probs (min 5 (int (length example_probs)))
            = Inr ((62 / 100, 2) # ?others)
        \<and> id2label example_env 2 = ''melanoma''"
    by (simp only: simp_thms)
  note resp = confidence_rounding [where env = example_env and req = example_request
      and upload = example_file and fs = Map.empty and img = "[9]"
      and probs = example_probs and idx = 2 and others = ?others,
      THEN conjunct2, THEN conjunct2, THEN conjunct2, THEN conjunct2, THEN conjunct2,
      THEN conjunct2, THEN mp, OF g]
  from h1 h2 h3 ex resp show ?thesis
    by (intro conjI)
qed

section \<open>Facts about lower-casing\<close>

lemma uppercase_codes: "(of_char ` set ascii_uppercase :: nat set) = {65..<91}"
proof -
  have "map of_char ascii_uppercase = [65..<91::nat]"
    by (simp add: ascii_uppercase_def)
  then have "set (map of_char ascii_uppercase) = set [65..<91::nat]"
    by (rule arg_cong)
  then show ?thesis
    by (simp only: set_map set_upt)
qed

lemma uppercase_iff:
  "c \<in> set ascii_uppercase \<longleftrightarrow> 65 \<le> (of_char c :: nat) \<and> (of_char c :: nat) \<le> 90"
proof -
  have "c \<in> set ascii_uppercase \<longleftrightarrow> (of_char c :: nat) \<in> of_char ` set ascii_uppercase"
    by (rule inj_image_mem_iff [OF inj_of_char, symmetric])
  also have "\<dots> \<longleftrightarrow> 65 \<le> (of_char c :: nat) \<and> (of_char c :: nat) \<le> 90"
    unfolding uppercase_codes by auto
  finally show ?thesis .
qed


lemma lower_char_code:
  "(of_char (lower_char c) :: nat) =
     (if 65 \<le> (of_char c :: nat) \<and> (of_char c :: nat) \<le> 90 then of_char c + 32 else of_char c)"
proof (cases "c \<in> set ascii_uppercase")
  case True
  then have "(of_char (lower_char c) :: nat) = of_char c + 32"
    by (auto simp: lower_char_def ascii_uppercase_def ascii_lowercase_def)
  with True show ?thesis
    by (simp only: uppercase_iff [symmetric] if_True)
next
  case False
  then have "map_of (zip ascii_uppercase ascii_lowercase) c = None"
    by (simp add: map_of_eq_None_iff ascii_uppercase_def ascii_lowercase_def)
  then have "lower_char c = c"
    by (simp add: lower_char_def)
  with False show ?thesis
    by (simp only: uppercase_iff [symmetric] if_False)
qed

lemma lower_char_eq_iff:
  assumes "97 \<le> (of_char k :: nat)" "(of_char k :: nat) \<le> 122"
  shows "lower_char c = k \<longleftrightarrow> c = k \<or> (of_char c :: nat) + 32 = of_char k"
proof -
  have "lower_char c = k \<longleftrightarrow> (of_char (lower_char c) :: nat) = of_char k"
    by simp
  also have "\<dots> \<longleftrightarrow> (of_char c :: nat) = of_char k \<or> (of_char c :: nat) + 32 = of_char k"
    using assms unfolding lower_char_code by auto
  also have "\<dots> \<longleftrightarrow> c = k \<or> (of_char c :: nat) + 32 = of_char k"
    by simp
  finally show ?thesis .
qed

lemma lower_eq_iff:
  assumes "\<forall>k \<in> set kw. 97 \<le> (of_char k :: nat) \<and> (of_char k :: nat) \<le> 122"
  shows "lower w = kw \<longleftrightarrow>
     length w = length kw
     \<and> (\<forall>i < length kw. w ! i = kw ! i \<or> (of_char (w ! i) :: nat) + 32 = of_char (kw ! i))"
proof -
  have "lower w = kw \<longleftrightarrow> length w = length kw \<and> (\<forall>i < length kw. lower_char (w ! i) = kw ! i)"
    by (auto simp: lower_def list_eq_iff_nth_eq)
  also have "\<dots> \<longleftrightarrow> length w = length kw
     \<and> (\<forall>i < length kw. w ! i = kw ! i \<or> (of_char (w ! i) :: nat) + 32 = of_char (kw ! i))"
    using assms by (auto simp: lower_char_eq_iff)
  finally show ?thesis .
qed

lemma sublist_lower_iff:
  "sublist kw (lower l) \<longleftrightarrow> (\<exists>ps w ss. l = ps @ w @ ss \<and> lower w = kw)"
proof
  assume "sublist kw (lower l)"
  then obtain ps' ss' where "map lower_char l = ps' @ kw @ ss'"
    by (auto simp: sublist_def lower_def)
  then have "\<exists>ps r. l = ps @ r \<and> ps' = map lower_char ps \<and> kw @ ss' = map lower_char r"
    by (simp only: map_eq_append_conv)
  then obtain ps r where l1: "l = ps @ r" and r: "map lower_char r = kw @ ss'"
    by (elim exE conjE) (rule that, simp_all)
  from r have "\<exists>w ss. r = w @ ss \<and> kw = map lower_char w \<and> ss' = map lower_char ss"
    by (simp only: map_eq_append_conv)
  then obtain w ss where "r = w @ ss" "map lower_char w = kw"
    by (elim exE conjE) (rule that, simp_all)
  with l1 show "\<exists>ps w ss. l = ps @ w @ ss \<and> lower w = kw"
    by (auto simp: lower_def)
next
  assume "\<exists>ps w ss. l = ps @ w @ ss \<and> lower w = kw"
  then obtain ps w ss where "l = ps @ w @ ss" "lower w = kw"
    by blast
  then have "lower l = lower ps @ kw @ lower ss"
    by (simp add: lower_def)
  then show "sublist kw (lower l)"
    unfolding sublist_def by blast
qed

lemma keywords_lowercase:
  "\<forall>kw \<in> set URGENT_KEYWORDS. \<forall>k \<in> set kw. 97 \<le> (of_char k :: nat) \<and> (of_char k :: nat) \<le> 122"
  by (simp add: URGENT_KEYWORDS_def)

lemma flag_by_codes:
  "display_results (r # rest) =
     Inr (\<exists>keyword \<in> set [''melanoma'', ''carcinoma'', ''actinic''].
            \<exists>ps w ss. cli_label r = ps @ w @ ss
              \<and> length w = length keyword
              \<and> (\<forall>i < length keyword.
                    w ! i = keyword ! i
                    \<or> (of_char (w ! i) :: nat) + 32 = of_char (keyword ! i)))"
proof -
  have "display_results (r # rest) =
      Inr (\<exists>keyword \<in> set URGENT_KEYWORDS. sublist keyword (lower (cli_label r)))"
    by (simp add: display_results_def Let_def list_ex_iff contains_sublist)
  also have "\<dots> = Inr (\<exists>keyword \<in> set URGENT_KEYWORDS.
            \<exists>ps w ss. cli_label r = ps @ w @ ss \<and> lower w = keyword)"
    by (simp only: sublist_lower_iff)
  also have "\<dots> = Inr (\<exists>keyword \<in> set URGENT_KEYWORDS.
            \<exists>ps w ss. cli_label r = ps @ w @ ss
              \<and> length w = length keyword
              \<and> (\<forall>i < length keyword.
                    w ! i = keyword ! i
                    \<or> (of_char (w ! i) :: nat) + 32 = of_char (keyword ! i)))"
    using keywords_lowercase by (simp add: lower_eq_iff cong: rev_conj_cong bex_cong)
  finally show ?thesis
    by (simp only: URGENT_KEYWORDS_def)
qed

section \<open>The urgent-attention flag\<close>

text \<open>
  Claim C6. For a non-empty list of predictions, the flag \<open>is_concerning\<close> of
  \<open>display_results\<close> is true exactly when the lower-cased label of the first entry contains
  "melanoma", "carcinoma" or "actinic": exactly when the label holds a run of characters
  that spells one of the three keywords, each character being the keyword's letter or its
  capital (the character 32 codes below it). So "MELANOMA" and "Actinic Keratosis" are
  flagged as "melanoma" is. The flag depends on the label of the first entry only: not on
  the other entries, not on the confidences and not on the risk tier of the taxonomy
  ("carcinoma in situ" is flagged with risk "Unknown", the empty label is not flagged with
  risk "Pre-cancerous"). "Basal cell carcinoma" at the top sets it, "Dermatofibroma" does
  not. On an empty list there is no first entry and \<open>results[0]\<close> raises.
\<close>

theorem urgent_flag:
  "display_results (r # rest) =
     Inr (\<exists>keyword \<in> set [''melanoma'', ''carcinoma'', ''actinic''].
            sublist keyword (lower (cli_label r)))
   \<and> (cli_label r = cli_label r' \<longrightarrow> display_results (r # rest) = display_results (r' # rest'))
   \<and> display_results (\<lparr>cli_label = ''Basal cell carcinoma'', cli_confidence = p\<rparr> # rest) = Inr True
   \<and> display_results (\<lparr>cli_label = ''Dermatofibroma'', cli_confidence = p\<rparr> # rest) = Inr False
   \<and> display_results (\<lparr>cli_label = ''carcinoma in situ'', cli_confidence = p\<rparr> # rest) = Inr True
   \<and> risk (result_entry ''carcinoma in situ'' p) = ''Unknown''
   \<and> display_results (\<lparr>cli_label = '''', cli_confidence = p\<rparr> # rest) = Inr False
   \<and> risk (result_entry '''' p) = ''Pre-cancerous''
   \<and> display_results [] = Inl IndexError
   \<and> display_results (r # rest) =
       Inr (\<exists>keyword \<in> set [''melanoma'', ''carcinoma'', ''actinic''].
              \<exists>ps w ss. cli_label r = ps @ w @ ss
                \<and> length w = length keyword
                \<and> (\<forall>i < length keyword.
                      w ! i = keyword ! i
                      \<or> (of_char (w ! i) :: nat) + 32 = of_char (keyword ! i)))
   \<and> (of_char (lower_char c) :: nat) =
       (if 65 \<le> (of_char c :: nat) \<and> (of_char c :: nat) \<le> 90 then of_char c + 32 else of_char c)
   \<and> display_results (\<lparr>cli_label = ''MELANOMA'', cli_confidence = p\<rparr> # rest) = Inr True
   \<and> display_results (\<lparr>cli_label = ''Squamous Cell CARCINOMA'', cli_confidence = p\<rparr> # rest)
       = Inr True
   \<and> display_results (\<lparr>cli_label = ''Actinic Keratosis'', cli_confidence = p\<rparr> # rest) = Inr True
   \<and> display_results (\<lparr>cli_label = ''MELANOCYTIC NEVUS'', cli_confidence = p\<rparr> # rest) = Inr False"
proof -
  have general: "display_results (r # rest) =
     Inr (\<exists>keyword \<in> set [''melanoma'', ''carcinoma'', ''actinic''].
            sublist keyword (lower (cli_label r)))" for r rest
    by (simp add: display_results_def Let_def URGENT_KEYWORDS_def contains_sublist)
  have top_only: "cli_label r = cli_label r' \<longrightarrow>
      display_results (r # rest) = display_results (r' # rest')"
    by (simp add: display_results_def Let_def)
  have bcc: "display_results (\<lparr>cli_label = ''Basal cell carcinoma'', cli_confidence = p\<rparr> # rest)
      = Inr True"
    by (simp add: display_results_def Let_def URGENT_KEYWORDS_def lower_eval)
  have df: "display_results (\<lparr>cli_label = ''Dermatofibroma'', cli_confidence = p\<rparr> # rest)
      = Inr False"
    by (simp add: display_results_def Let_def URGENT_KEYWORDS_def lower_eval)
  have cis: "display_results (\<lparr>cli_label = ''carcinoma in situ'', cli_confidence = p\<rparr> # rest)
      = Inr True"
    by (simp add: display_results_def Let_def URGENT_KEYWORDS_def lower_eval)
  have "match_class_info ''carcinoma in situ'' = None"
    by (simp add: match_class_info_def CLASS_INFO_def lower_eval)
  then have cis_risk: "risk (result_entry ''carcinoma in situ'' p) = ''Unknown''"
    by (simp add: result_entry_def)
  have empty: "display_results (\<lparr>cli_label = '''', cli_confidence = p\<rparr> # rest) = Inr False"
    by (simp add: display_results_def Let_def URGENT_KEYWORDS_def lower_def)
  have "match_class_info '''' = Some (snd (hd CLASS_INFO))"
    by (simp add: match_class_info_def CLASS_INFO_def lower_def)
  then have empty_risk: "risk (result_entry '''' p) = ''Pre-cancerous''"
    by (simp add: result_entry_def CLASS_INFO_def)
  have none: "display_results [] = Inl IndexError"
    by (simp add: display_results_def Let_def)
  have upper_mel: "display_results (\<lparr>cli_label = ''MELANOMA'', cli_confidence = p\<rparr> # rest)
      = Inr True"
    by (simp add: display_results_def Let_def URGENT_KEYWORDS_def lower_eval)
  have upper_scc: "display_results
      (\<lparr>cli_label = ''Squamous Cell CARCINOMA'', cli_confidence = p\<rparr> # rest) = Inr True"
    by (simp add: display_results_def Let_def URGENT_KEYWORDS_def lower_eval)
  have upper_ak: "display_results (\<lparr>cli_label = ''Actinic Keratosis'', cli_confidence = p\<rparr> # rest)
      = Inr True"
    by (simp add: display_results_def Let_def URGENT_KEYWORDS_def lower_eval)
  have upper_nev: "display_results
      (\<lparr>cli_label = ''MELANOCYTIC NEVUS'', cli_confidence = p\<rparr> # rest) = Inr False"
    by (simp add: display_results_def Let_def URGENT_KEYWORDS_def lower_eval)
  from general [of r rest] top_only bcc df cis cis_risk empty empty_risk none
    flag_by_codes [of r rest] lower_char_code [of c] upper_mel upper_scc upper_ak upper_nev
  show ?thesis
    by (intro conjI)
qed

theorem urgent_flag_witness:
  "display_results
     [\<lparr>cli_label = ''Basal cell carcinoma'', cli_confidence = 6 / 10\<rparr>,
      \<lparr>cli_label = ''nevus'', cli_confidence = 4 / 10\<rparr>] = Inr True
   \<and> display_results
     [\<lparr>cli_label = ''Dermatofibroma'', cli_confidence = 6 / 10\<rparr>,
      \<lparr>cli_label = ''melanoma'', cli_confidence = 4 / 10\<rparr>] = Inr False
   \<and> display_results
     [\<lparr>cli_label = ''Dermatofibroma'', cli_confidence = 6 / 10\<rparr>,
      \<lparr>cli_label = ''melanoma'', cli_confidence = 4 / 10\<rparr>]
     = display_results [\<lparr>cli_label = ''Dermatofibroma'', cli_confidence = 1\<rparr>]
   \<and> display_results
     [\<lparr>cli_label = ''MELANOMA'', cli_confidence = 6 / 10\<rparr>,
      \<lparr>cli_label = ''nevus'', cli_confidence = 4 / 10\<rparr>] = Inr True
   \<and> display_results
     [\<lparr>cli_label = ''Actinic Keratosis'', cli_confidence = 6 / 10\<rparr>,
      \<lparr>cli_label = ''nevus'', cli_confidence = 4 / 10\<rparr>] = Inr True
   \<and> (of_char (lower_char CHR ''M'') :: nat) = of_char CHR ''m''"
proof -
  note u1 = urgent_flag [where p = "6 / 10"
      and rest = "[\<lparr>cli_label = ''nevus'', cli_confidence = 4 / 10\<rparr>]",
      THEN conjunct2, THEN conjunct2, THEN conjunct1]
  note u2 = urgent_flag [where p = "6 / 10"
      and rest = "[\<lparr>cli_label = ''melanoma'', cli_confidence = 4 / 10\<rparr>]",
      THEN conjunct2, THEN conjunct2, THEN conjunct2, THEN conjunct1]
  have e: "cli_label \<lparr>cli_label = ''Dermatofibroma'', cli_confidence = 6 / 10\<rparr>
      = cli_label \<lparr>cli_label = ''Dermatofibroma'', cli_confidence = 1\<rparr>"
    by simp
  note u3 = urgent_flag [where r = "\<lparr>cli_label = ''Dermatofibroma'', cli_confidence = 6 / 10\<rparr>"
      and r' = "\<lparr>cli_label = ''Dermatofibroma'', cli_confidence = 1\<rparr>"
      and rest = "[\<lparr>cli_label = ''melanoma'', cli_confidence = 4 / 10\<rparr>]" and rest' = "[]",
      THEN conjunct2, THEN conjunct1, THEN mp, OF e]
  note tail = urgent_flag [where p = "6 / 10" and c = "CHR ''M''"
      and rest = "[\<lparr>cli_label = ''nevus'', cli_confidence = 4 / 10\<rparr>]",
      THEN conjunct2, THEN conjunct2, THEN conjunct2, THEN conjunct2, THEN conjunct2,
      THEN conjunct2, THEN conjunct2, THEN conjunct2, THEN conjunct2, THEN conjunct2]
  note u4 = tail [THEN conjunct2, THEN conjunct1]
  note u5 = tail [THEN conjunct2, THEN conjunct2, THEN conjunct2, THEN conjunct1]
  from tail [THEN conjunct1] have u6: "(of_char (lower_char CHR ''M'') :: nat) = of_char CHR ''m''"
    by simp
  from u1 u2 u3 u4 u5 u6 show ?thesis
    by (intro conjI)
qed

end
